theory Spec2Isabelle
  imports Complex_Main
begin

section \<open>Data model (types.ts)\<close>

datatype AppView = DASHBOARD | GATHER_REQUIREMENTS | REVIEW_PLAN | EXECUTION | REPORT | HISTORY

datatype RequirementType = USER | FUNCTIONAL | TECHNICAL

datatype Priority = High | Medium | Low

record Requirement =
  r_id :: string
  r_type :: RequirementType
  description :: string
  priority :: Priority

record TestStep =
  stepNumber :: int
  action :: string
  expectedResult :: string

datatype TestStatus = PENDING | RUNNING | PASSED | FAILED

record TestCase =
  tc_id :: string
  requirementId :: string
  title :: string
  steps :: "TestStep list"
  status :: TestStatus
  logs :: "string list"
  screenshotUrl :: "string option"
  failedStepNumber :: "int option"
  failureReason :: "string option"

datatype Role = user | model

record ChatMessage =
  role :: Role
  msg_text :: string
  timestamp :: nat

datatype ProjectStatus = Draft | InProgress | Validated | PartlyValidated | Failed

record ValidationProject =
  p_id :: string
  name :: string
  platformVersion :: string
  p_status :: ProjectStatus
  createdAt :: string
  requirements :: "Requirement list"
  testCases :: "TestCase list"
  chatHistory :: "ChatMessage list"
  environmentConfig :: "string option"

section \<open>Array callbacks that receive the element index\<close>

text \<open>\<^verbatim>\<open>xs.map((x, i) => f(x, i))\<close> and \<^verbatim>\<open>xs.filter((x, i) => p(x, i))\<close>.\<close>

definition js_mapi :: "('a \<Rightarrow> nat \<Rightarrow> 'b) \<Rightarrow> 'a list \<Rightarrow> 'b list" where
  "js_mapi f xs = map (\<lambda>(i, x). f x i) (enumerate 0 xs)"

definition js_filteri :: "('a \<Rightarrow> nat \<Rightarrow> bool) \<Rightarrow> 'a list \<Rightarrow> 'a list" where
  "js_filteri p xs = map snd (filter (\<lambda>(i, x). p x i) (enumerate 0 xs))"

section \<open>Step editing in the test-plan editor and in the report's fix modal\<close>

text \<open>
  Both components keep the case being edited in an optional form value
  (\<^verbatim>\<open>editForm\<close>, \<^verbatim>\<open>selectedTest\<close>); every handler is a no-op while it is null.
  The result is the new value of that state.
\<close>

definition TestPlanView_addStep :: "TestCase option \<Rightarrow> TestCase option" where
  "TestPlanView_addStep editForm =
     (case editForm of
        None \<Rightarrow> None
      | Some form \<Rightarrow>
          let newStep = \<lparr>stepNumber = int (length (steps form)) + 1,
                          action = ''New action'',
                          expectedResult = ''Expected result''\<rparr>
          in Some (form\<lparr>steps := steps form @ [newStep]\<rparr>))"

definition TestPlanView_removeStep :: "nat \<Rightarrow> TestCase option \<Rightarrow> TestCase option" where
  "TestPlanView_removeStep index editForm =
     (case editForm of
        None \<Rightarrow> None
      | Some form \<Rightarrow>
          let newSteps = js_mapi (\<lambda>step i. step\<lparr>stepNumber := int i + 1\<rparr>)
                           (js_filteri (\<lambda>_ i. i \<noteq> index) (steps form))
          in Some (form\<lparr>steps := newSteps\<rparr>))"

definition ReportView_addStep :: "TestCase option \<Rightarrow> TestCase option" where
  "ReportView_addStep selectedTest =
     (case selectedTest of
        None \<Rightarrow> None
      | Some sel \<Rightarrow>
          let newStep = \<lparr>stepNumber = int (length (steps sel)) + 1,
                          action = ''New step action'',
                          expectedResult = ''Expected result''\<rparr>
          in Some (sel\<lparr>steps := steps sel @ [newStep]\<rparr>))"

definition ReportView_removeStep :: "nat \<Rightarrow> TestCase option \<Rightarrow> TestCase option" where
  "ReportView_removeStep index selectedTest =
     (case selectedTest of
        None \<Rightarrow> None
      | Some sel \<Rightarrow>
          let newSteps = js_mapi (\<lambda>s i. s\<lparr>stepNumber := int i + 1\<rparr>)
                           (js_filteri (\<lambda>_ i. i \<noteq> index) (steps sel))
          in Some (sel\<lparr>steps := newSteps\<rparr>))"

text \<open>The step numbers of a case are \<open>1, 2, ..., n\<close> for its \<open>n\<close> steps.\<close>

definition contiguous :: "TestStep list \<Rightarrow> bool" where
  "contiguous ss \<longleftrightarrow> map stepNumber ss = [1..int (length ss)]"

section \<open>JavaScript helpers\<close>

text \<open>Decimal rendering of an integer inside a template literal.\<close>

definition digit :: "nat \<Rightarrow> char" where
  "digit d = ''0123456789'' ! d"

fun decimal :: "nat \<Rightarrow> string" where
  "decimal n = (if n < 10 then [digit n] else decimal (n div 10) @ [digit (n mod 10)])"

declare decimal.simps [simp del]

definition showInt :: "int \<Rightarrow> string" where
  "showInt i = (if i < 0 then CHR ''-'' # decimal (nat (- i)) else decimal (nat i))"

text \<open>\<^verbatim>\<open>xs[i]\<close> for a number \<open>i\<close>: \<^verbatim>\<open>undefined\<close> outside the array.\<close>

definition js_index :: "'a list \<Rightarrow> int \<Rightarrow> 'a option" where
  "js_index xs i = (if 0 \<le> i \<and> i < int (length xs) then Some (xs ! nat i) else None)"

text \<open>\<^verbatim>\<open>xs.slice(-n)\<close>: the last \<open>n\<close> elements.\<close>

definition slice_last :: "nat \<Rightarrow> 'a list \<Rightarrow> 'a list" where
  "slice_last n xs = drop (length xs - n) xs"

text \<open>\<^verbatim>\<open>s || dflt\<close> for an optional string: undefined and the empty string are falsy.\<close>

definition or_string :: "string option \<Rightarrow> string \<Rightarrow> string" where
  "or_string s dflt = (case s of None \<Rightarrow> dflt | Some v \<Rightarrow> if v = [] then dflt else v)"

text \<open>\<^verbatim>\<open>xs || []\<close> for an optional array: every array is truthy.\<close>

definition or_array :: "'a list option \<Rightarrow> 'a list" where
  "or_array xs = (case xs of None \<Rightarrow> [] | Some v \<Rightarrow> v)"

section \<open>Double-precision numbers\<close>

text \<open>
  A JavaScript number is an IEEE 754 double. It is taken here as the rational it
  denotes; infinities, NaN and the sign of zero play no part in the code below. The
  result of an arithmetic operation is the exact result rounded to the nearest double,
  ties going to the double with an even significand.
\<close>

text \<open>The number of binary digits of a natural number.\<close>

fun bits :: "nat \<Rightarrow> nat" where
  "bits n = (if n = 0 then 0 else Suc (bits (n div 2)))"

declare bits.simps [simp del]

text \<open>The binary exponent of a positive rational \<open>x\<close>: the \<open>e\<close> with \<open>2\<^sup>e \<le> x < 2\<^sup>e\<^sup>+\<^sup>1\<close>.\<close>

definition exponent :: "rat \<Rightarrow> int" where
  "exponent x =
     (if 1 \<le> x then int (bits (nat \<lfloor>x\<rfloor>)) - 1
      else - int (bits (nat (\<lceil>1 / x\<rceil> - 1))))"

text \<open>
  The distance between neighbouring doubles at \<open>x \<noteq> 0\<close>: 52 binary places below
  the exponent of \<open>x\<close>, and \<open>2\<^sup>-\<^sup>1\<^sup>0\<^sup>7\<^sup>4\<close> in the subnormal range.
\<close>

definition ulp :: "rat \<Rightarrow> rat" where
  "ulp x = 2 powi (max (exponent \<bar>x\<bar>) (- 1022) - 52)"

text \<open>Rounding to the nearest integer, a tie going to the even one.\<close>

definition roundHalfEven :: "rat \<Rightarrow> int" where
  "roundHalfEven y =
     (let f = \<lfloor>y\<rfloor>; d = y - of_int f
      in if d < 1 / 2 then f
         else if 1 / 2 < d then f + 1
         else if even f then f else f + 1)"

text \<open>The double nearest to \<open>x\<close>, for \<open>x\<close> of a magnitude below \<open>2\<^sup>1\<^sup>0\<^sup>2\<^sup>4\<close>.\<close>

definition toDouble :: "rat \<Rightarrow> rat" where
  "toDouble x = (if x = 0 then 0 else of_int (roundHalfEven (x / ulp x)) * ulp x)"

definition isDouble :: "rat \<Rightarrow> bool" where
  "isDouble x = (toDouble x = x)"

section \<open>Execution simulator (ExecutionRunner, runTests)\<close>

text \<open>
  What the component takes from its environment: the successive results of
  \<^verbatim>\<open>Math.random()\<close> (the \<open>k\<close>-th call returns \<open>random env k\<close>, a double in \<open>[0, 1)\<close>),
  the canvas rendering behind \<^verbatim>\<open>generateScreenshot\<close>, and the value of the
  \<^verbatim>\<open>consoleLogs\<close> state that the effect's closure captured. The literals 0.3 and 0.8
  are the doubles nearest to 3/10 and 8/10, and a product of a draw and a length is
  the rounded product; a length and the floor of a double are exact. Console output
  (\<^verbatim>\<open>addLog\<close>) and the timed delays
  change no test case and are left out.
\<close>

record RunnerEnv =
  random :: "nat \<Rightarrow> rat"
  generateScreenshot :: "TestStatus \<Rightarrow> string \<Rightarrow> int option \<Rightarrow> string option \<Rightarrow> string"
  consoleLogs :: "string list"

definition reasons :: "string list" where
  "reasons =
     [''Element not found within timeout'',
      ''Expected text '' @ [CHR 0x27] @ ''Submit'' @ [CHR 0x27] @ '' but found '' @ [CHR 0x27] @ ''Save'' @ [CHR 0x27],
      ''API returned 500 Internal Server Error'',
      ''Button is not clickable'',
      ''Input validation failed unexpectedly'']"

text \<open>
  The inner loop over the steps of one case. The third component counts the
  calls of \<^verbatim>\<open>Math.random()\<close> made so far.
\<close>

fun runTests_steps ::
  "RunnerEnv \<Rightarrow> bool \<Rightarrow> int \<Rightarrow> nat \<Rightarrow> TestStep list \<Rightarrow> int option \<times> string option \<times> nat" where
  "runTests_steps env isSuccess failAtStep k [] = (None, None, k)"
| "runTests_steps env isSuccess failAtStep k (step # rest) =
     (if \<not> isSuccess \<and> stepNumber step = failAtStep
      then (Some (stepNumber step),
            js_index reasons \<lfloor>toDouble (random env k * of_nat (length reasons))\<rfloor>,
            Suc k)
      else runTests_steps env isSuccess failAtStep k rest)"

text \<open>
  The body of the outer loop for a case \<open>tc\<close> that is not Passed, after it has been
  marked Running: the outcome draw, the failure point, the steps, the evidence,
  and the record that replaces the case.
\<close>

definition runTests_case :: "RunnerEnv \<Rightarrow> TestCase \<Rightarrow> nat \<Rightarrow> TestCase \<times> nat" where
  "runTests_case env tc k0 =
     (let isSuccess = (random env k0 > toDouble (3 / 10));
          k1 = Suc k0;
          failAtStep = (if \<not> isSuccess
                        then \<lfloor>toDouble (random env k1 * of_nat (length (steps tc)))\<rfloor> + 1
                        else - 1);
          k2 = (if \<not> isSuccess then Suc k1 else k1);
          (failedStep, reason, k3) = runTests_steps env isSuccess failAtStep k2 (steps tc);
          st = (if isSuccess then PASSED else FAILED);
          capture = (\<not> isSuccess \<or> random env k3 > toDouble (8 / 10));
          k4 = (if isSuccess then Suc k3 else k3);
          shot = (if capture then Some (generateScreenshot env st (title tc) failedStep reason)
                  else None);
          resultLine = ''Result: '' @
             (if isSuccess then ''Success''
              else ''Failed at Step '' @
                   (case failedStep of None \<Rightarrow> ''undefined'' | Some n \<Rightarrow> showInt n))
      in (tc\<lparr>status := st,
              logs := resultLine # slice_last 5 (consoleLogs env),
              screenshotUrl := shot,
              failedStepNumber := failedStep,
              failureReason := reason\<rparr>,
          k4))"

text \<open>
  The state of the outer loop: the working copy \<^verbatim>\<open>updatedCases\<close>, the successive
  arguments of \<^verbatim>\<open>setTestCases\<close> and \<^verbatim>\<open>setActiveTestId\<close>, and the number of
  random draws made.
\<close>

record RunState =
  updatedCases :: "TestCase list"
  shown :: "TestCase list list"
  activated :: "string list"
  draws :: nat

text \<open>
  One iteration of the outer loop at index \<open>i\<close>: a Passed case is skipped
  (\<^verbatim>\<open>continue\<close>), any other case is marked Running, executed, and replaced.
\<close>

definition runTests_body :: "RunnerEnv \<Rightarrow> nat \<Rightarrow> RunState \<Rightarrow> RunState" where
  "runTests_body env i s =
     (let tc = updatedCases s ! i in
      if status tc = PASSED then s
      else
        (let marked = (updatedCases s)[i := tc\<lparr>status := RUNNING\<rparr>];
             res = runTests_case env tc (draws s);
             finished = marked[i := fst res]
         in \<lparr>updatedCases = finished,
             shown = shown s @ [marked, finished],
             activated = activated s @ [tc_id tc],
             draws = snd res\<rparr>))"

function runTests_loop :: "RunnerEnv \<Rightarrow> nat \<Rightarrow> RunState \<Rightarrow> RunState" where
  "runTests_loop env i s =
     (if i < length (updatedCases s)
      then runTests_loop env (Suc i) (runTests_body env i s)
      else s)"
  by pat_completeness auto
termination
  by (relation "measure (\<lambda>(env, i, s). length (updatedCases s) - i)")
     (auto simp: runTests_body_def Let_def)

declare runTests_loop.simps [simp del]

text \<open>
  The aggregation rule at the end of a pass. \<^verbatim>\<open>totalCount / 2\<close> is a division
  of numbers, not an integer division.
\<close>

definition finalStatus :: "TestCase list \<Rightarrow> ProjectStatus" where
  "finalStatus cases =
     (let failedCount = length (filter (\<lambda>tc. status tc = FAILED) cases);
          totalCount = length cases
      in if (of_nat failedCount :: rat) > of_nat totalCount / 2 then Failed
         else if failedCount > 0 then PartlyValidated
         else Validated)"

text \<open>
  One run of the effect. \<open>updateArg\<close> is the argument of \<^verbatim>\<open>onUpdateProject\<close> when
  it is called, \<open>completeCalled\<close> records the call of \<^verbatim>\<open>onComplete\<close>.
\<close>

record RunResult =
  final :: RunState
  updateArg :: "ValidationProject option"
  completeCalled :: bool

definition runTests :: "RunnerEnv \<Rightarrow> ValidationProject \<Rightarrow> RunResult" where
  "runTests env project =
     (let start = \<lparr>updatedCases = testCases project, shown = [], activated = [], draws = 0\<rparr>;
          pendingCount = length (filter (\<lambda>tc. status tc = PENDING) (updatedCases start))
      in if pendingCount = 0
         then \<lparr>final = start, updateArg = None, completeCalled = True\<rparr>
         else
           (let s = runTests_loop env 0 start
            in \<lparr>final = s,
                updateArg = Some (project\<lparr>testCases := updatedCases s,
                                          p_status := finalStatus (updatedCases s)\<rparr>),
                completeCalled = True\<rparr>))"

section \<open>Model gateway (geminiService): retry and the five operations\<close>

text \<open>A thrown JavaScript error, with its message.\<close>

datatype error = Error string

text \<open>
  What a call of a gateway operation does besides returning: the underlying
  calls it makes and the delays it waits for, in order.
\<close>

datatype event = Call | Sleep rat

text \<open>
  \<^verbatim>\<open>retry(fn, retries = 2, delay = 1000)\<close>. The function \<open>fn\<close> is an external call
  whose outcome may change from one invocation to the next: \<open>fn k\<close> is the outcome
  of its \<open>k\<close>-th invocation. A rejected promise is \<open>Inl\<close>.
\<close>

function retry :: "(nat \<Rightarrow> error + 'a) \<Rightarrow> nat \<Rightarrow> int \<Rightarrow> rat \<Rightarrow> (error + 'a) \<times> event list" where
  "retry fn k retries delay =
     (case fn k of
        Inr v \<Rightarrow> (Inr v, [Call])
      | Inl e \<Rightarrow>
          if retries \<le> 0 then (Inl e, [Call])
          else (let r = retry fn (Suc k) (retries - 1) (delay * (3 / 2))
                in (fst r, Call # Sleep delay # snd r)))"
  by pat_completeness auto
termination
  by (relation "measure (\<lambda>(fn, k, retries, delay). nat retries)") auto

declare retry.simps [simp del]

text \<open>
  The retry policy in the words of the specification, for an operation whose
  underlying call has the outcome \<open>call k\<close> at its \<open>k\<close>-th attempt and which returned
  \<open>result\<close>: at most two more attempts after the first, a wait of the base delay
  (1000) before the second and of the base delay times 1.5 (1500) before the third,
  an attempt being made exactly when all the earlier ones failed, and the error of the
  third attempt as the operation's only result when that attempt fails too.
\<close>

definition retry_policy :: "(nat \<Rightarrow> error + 'a) \<Rightarrow> (error + 'b) \<times> event list \<Rightarrow> bool" where
  "retry_policy call result =
     (snd result =
        (if isl (call 0) then
           (if isl (call 1) then [Call, Sleep 1000, Call, Sleep 1500, Call]
            else [Call, Sleep 1000, Call])
         else [Call]) \<and>
      (isl (call 0) \<and> isl (call 1) \<and> isl (call 2) \<longrightarrow> fst result = Inl (projl (call 2))))"

datatype Schema = requirementsSchema | testCaseSchema | fixTestSchema | singleTestCaseSchema

record GenRequest =
  contents :: string
  responseSchema :: "Schema option"

text \<open>The objects that \<^verbatim>\<open>JSON.parse\<close> yields under each response schema.\<close>

record RawRequirement =
  raw_type :: RequirementType
  raw_description :: string
  raw_priority :: Priority

record RawTestCase =
  raw_requirementId :: string
  raw_title :: string
  raw_steps :: "TestStep list"

text \<open>
  The external parts of the service: the model call (\<open>generateContent gw k req\<close> is
  the outcome of the \<open>k\<close>-th call of an operation; the response text may be
  undefined), the rendering of each prompt template, \<^verbatim>\<open>JSON.parse\<close> at each result
  type, the final regular-expression clean-up of generated code, and \<^verbatim>\<open>Date.now()\<close>
  as read for the element at a given index.
\<close>

record Gateway =
  generateContent :: "nat \<Rightarrow> GenRequest \<Rightarrow> error + string option"
  prompt_extract :: "string \<Rightarrow> string"
  prompt_generate :: "Requirement list \<Rightarrow> string"
  prompt_fix :: "TestCase \<Rightarrow> string"
  prompt_refine :: "TestCase \<Rightarrow> string \<Rightarrow> string"
  prompt_code :: "TestCase list \<Rightarrow> string \<Rightarrow> string option \<Rightarrow> string"
  parse_requirements :: "string \<Rightarrow> error + RawRequirement list \<times> string"
  parse_testCases :: "string \<Rightarrow> error + RawTestCase list"
  parse_fix :: "string \<Rightarrow> error + TestStep list \<times> string"
  parse_refine :: "string \<Rightarrow> error + string \<times> TestStep list"
  stripFences :: "string \<Rightarrow> string"
  gw_now :: "nat \<Rightarrow> nat"

text \<open>\<^verbatim>\<open>if (!text) throw new Error("No response from Gemini")\<close>\<close>

definition requireText :: "string option \<Rightarrow> error + string" where
  "requireText t =
     (case t of
        None \<Rightarrow> Inl (Error ''No response from Gemini'')
      | Some s \<Rightarrow> if s = [] then Inl (Error ''No response from Gemini'') else Inr s)"

definition extractRequirements ::
  "Gateway \<Rightarrow> string \<Rightarrow> (error + Requirement list \<times> string) \<times> event list" where
  "extractRequirements gw chatHistoryText =
     (let r = retry (\<lambda>k. generateContent gw k
                       \<lparr>contents = prompt_extract gw chatHistoryText,
                        responseSchema = Some requirementsSchema\<rparr>) 0 2 1000
      in (case fst r of
            Inl e \<Rightarrow> Inl e
          | Inr response \<Rightarrow>
              (case requireText response of
                 Inl e \<Rightarrow> Inl e
               | Inr t \<Rightarrow>
                   (case parse_requirements gw t of
                      Inl e \<Rightarrow> Inl e
                    | Inr data \<Rightarrow>
                        Inr (js_mapi (\<lambda>req index.
                               \<lparr>r_id = ''REQ-'' @ decimal (gw_now gw index) @ ''-'' @ decimal index,
                                r_type = raw_type req,
                                description = raw_description req,
                                priority = raw_priority req\<rparr>) (fst data),
                             snd data))),
          snd r))"

definition generateTestCases ::
  "Gateway \<Rightarrow> Requirement list \<Rightarrow> (error + TestCase list) \<times> event list" where
  "generateTestCases gw reqs =
     (let r = retry (\<lambda>k. generateContent gw k
                       \<lparr>contents = prompt_generate gw reqs,
                        responseSchema = Some testCaseSchema\<rparr>) 0 2 1000
      in (case fst r of
            Inl e \<Rightarrow> Inl e
          | Inr response \<Rightarrow>
              (case requireText response of
                 Inl e \<Rightarrow> Inl e
               | Inr t \<Rightarrow>
                   (case parse_testCases gw t of
                      Inl e \<Rightarrow> Inl e
                    | Inr data \<Rightarrow>
                        Inr (js_mapi (\<lambda>tc index.
                               \<lparr>tc_id = ''TC-'' @ decimal (gw_now gw index) @ ''-'' @ decimal index,
                                requirementId = raw_requirementId tc,
                                title = raw_title tc,
                                steps = raw_steps tc,
                                status = PENDING,
                                logs = [],
                                screenshotUrl = None,
                                failedStepNumber = None,
                                failureReason = None\<rparr>) data))),
          snd r))"

definition analyzeAndFixTestCase ::
  "Gateway \<Rightarrow> TestCase \<Rightarrow> (error + TestStep list \<times> string) \<times> event list" where
  "analyzeAndFixTestCase gw testCase =
     (let r = retry (\<lambda>k. generateContent gw k
                       \<lparr>contents = prompt_fix gw testCase,
                        responseSchema = Some fixTestSchema\<rparr>) 0 2 1000
      in (case fst r of
            Inl e \<Rightarrow> Inl e
          | Inr response \<Rightarrow>
              (case requireText response of
                 Inl e \<Rightarrow> Inl e
               | Inr t \<Rightarrow> parse_fix gw t),
          snd r))"

definition refineTestCase ::
  "Gateway \<Rightarrow> TestCase \<Rightarrow> string \<Rightarrow> (error + string \<times> TestStep list) \<times> event list" where
  "refineTestCase gw testCase instruction =
     (let r = retry (\<lambda>k. generateContent gw k
                       \<lparr>contents = prompt_refine gw testCase instruction,
                        responseSchema = Some singleTestCaseSchema\<rparr>) 0 2 1000
      in (case fst r of
            Inl e \<Rightarrow> Inl e
          | Inr response \<Rightarrow>
              (case requireText response of
                 Inl e \<Rightarrow> Inl e
               | Inr t \<Rightarrow> parse_refine gw t),
          snd r))"

definition generateTestSuiteCode ::
  "Gateway \<Rightarrow> TestCase list \<Rightarrow> string \<Rightarrow> string option \<Rightarrow> (error + string) \<times> event list" where
  "generateTestSuiteCode gw cases framework envConfig =
     (let r = retry (\<lambda>k. generateContent gw k
                       \<lparr>contents = prompt_code gw cases framework envConfig,
                        responseSchema = None\<rparr>) 0 2 1000
      in (case fst r of
            Inl e \<Rightarrow> Inl e
          | Inr response \<Rightarrow> Inr (stripFences gw (or_string response [])),
          snd r))"

section \<open>Application state and its handlers (App.tsx)\<close>

text \<open>
  Modelled from the spec: the project record store \<^verbatim>\<open>services/db\<close>
  (\<^verbatim>\<open>saveProjectToHistory\<close>) is not part of the sources. The spec describes it as one
  record per project, keyed by the project identifier, holding the whole project, where
  every save is a full replace of that key's record.
\<close>

type_synonym ProjectStore = "string \<rightharpoonup> ValidationProject"

definition saveProjectToHistory :: "ProjectStore \<Rightarrow> ValidationProject \<Rightarrow> ProjectStore" where
  "saveProjectToHistory db project = db(p_id project \<mapsto> project)"

record App =
  currentView :: AppView
  activeProject :: "ValidationProject option"
  store :: ProjectStore

text \<open>The two readings of the clock: \<^verbatim>\<open>Date.now()\<close> and \<^verbatim>\<open>new Date().toISOString()\<close>.\<close>

record Clock =
  dateNow :: nat
  isoNow :: string

text \<open>The fields of the \<^verbatim>\<open>Partial<ValidationProject>\<close> that the handler reads.\<close>

record ProjectData =
  d_name :: "string option"
  d_platformVersion :: "string option"
  d_requirements :: "Requirement list option"
  d_chatHistory :: "ChatMessage list option"

definition handleRequirementsGathered :: "Clock \<Rightarrow> ProjectData \<Rightarrow> App \<Rightarrow> App" where
  "handleRequirementsGathered clock data app =
     (let newProject =
            \<lparr>p_id = ''PROJ-'' @ decimal (dateNow clock),
             name = or_string (d_name data) ''Untitled Project'',
             platformVersion = or_string (d_platformVersion data) ''1.0.0'',
             p_status = Draft,
             createdAt = isoNow clock,
             requirements = or_array (d_requirements data),
             testCases = [],
             chatHistory = or_array (d_chatHistory data),
             environmentConfig = None\<rparr>
      in app\<lparr>activeProject := Some newProject,
              store := saveProjectToHistory (store app) newProject,
              currentView := REVIEW_PLAN\<rparr>)"

definition handleUpdateProject :: "ValidationProject \<Rightarrow> App \<Rightarrow> App" where
  "handleUpdateProject updated app =
     app\<lparr>activeProject := Some updated,
         store := saveProjectToHistory (store app) updated\<rparr>"

definition handleStartExecution :: "App \<Rightarrow> App" where
  "handleStartExecution app =
     (let app1 = app\<lparr>currentView := EXECUTION\<rparr>
      in case activeProject app of
           None \<Rightarrow> app1
         | Some p \<Rightarrow> handleUpdateProject (p\<lparr>p_status := InProgress\<rparr>) app1)"

definition handleExecutionComplete :: "App \<Rightarrow> App" where
  "handleExecutionComplete app = app\<lparr>currentView := REPORT\<rparr>"

definition handleRetryExecution :: "App \<Rightarrow> App" where
  "handleRetryExecution app = app\<lparr>currentView := EXECUTION\<rparr>"

text \<open>
  The execution view wired into the application: \<^verbatim>\<open>onUpdateProject\<close> is
  \<^verbatim>\<open>handleUpdateProject\<close> and \<^verbatim>\<open>onComplete\<close> is \<^verbatim>\<open>handleExecutionComplete\<close>.
\<close>

definition ExecutionRunner :: "RunnerEnv \<Rightarrow> ValidationProject \<Rightarrow> App \<Rightarrow> App" where
  "ExecutionRunner env project app =
     (let r = runTests env project;
          app1 = (case updateArg r of None \<Rightarrow> app | Some p \<Rightarrow> handleUpdateProject p app)
      in if completeCalled r then handleExecutionComplete app1 else app1)"

section \<open>Report view: the fix modal (ReportView.tsx)\<close>

text \<open>
  The modal's state is \<^verbatim>\<open>selectedTest\<close>, a deep copy of the case being fixed.
  \<^verbatim>\<open>onUpdateProject\<close> is \<^verbatim>\<open>handleUpdateProject\<close>, \<^verbatim>\<open>onRetry\<close> is
  \<^verbatim>\<open>handleRetryExecution\<close>.
\<close>

definition openFixModal :: "TestCase \<Rightarrow> TestCase option" where
  "openFixModal tc = Some tc"

text \<open>
  \<^verbatim>\<open>handleAiFix\<close>: the state is the pair of \<^verbatim>\<open>selectedTest\<close> and
  \<^verbatim>\<open>fixExplanation\<close>. A failed gateway call raises an alert and changes neither.
\<close>

definition handleAiFix ::
  "Gateway \<Rightarrow> TestCase option \<times> string \<Rightarrow> (TestCase option \<times> string) \<times> event list" where
  "handleAiFix gw modal =
     (case fst modal of
        None \<Rightarrow> (modal, [])
      | Some sel \<Rightarrow>
          (let r = analyzeAndFixTestCase gw sel
           in (case fst r of
                 Inl e \<Rightarrow> modal
               | Inr result \<Rightarrow> (Some (sel\<lparr>steps := fst result\<rparr>), snd result),
               snd r)))"

definition resetForRetry :: "TestCase \<Rightarrow> TestCase" where
  "resetForRetry sel =
     sel\<lparr>status := PENDING, failedStepNumber := None, failureReason := None,
         screenshotUrl := None, logs := []\<rparr>"

definition handleSaveAndRetry ::
  "ValidationProject \<Rightarrow> TestCase option \<Rightarrow> App \<Rightarrow> TestCase option \<times> App" where
  "handleSaveAndRetry project selectedTest app =
     (case selectedTest of
        None \<Rightarrow> (selectedTest, app)
      | Some sel \<Rightarrow>
          let updatedTestCases =
                map (\<lambda>tc. if tc_id tc = tc_id sel then resetForRetry sel else tc)
                    (testCases project);
              app1 = handleUpdateProject
                       (project\<lparr>testCases := updatedTestCases, p_status := InProgress\<rparr>) app
          in (None, handleRetryExecution app1))"

section \<open>Chat view: finishing the conversation (ChatInterface.tsx)\<close>

definition js_join :: "string \<Rightarrow> string list \<Rightarrow> string" where
  "js_join sep xs = (case xs of [] \<Rightarrow> [] | y # ys \<Rightarrow> y @ concat (map (\<lambda>z. sep @ z) ys))"

definition roleUpper :: "Role \<Rightarrow> string" where
  "roleUpper r = (case r of user \<Rightarrow> ''USER'' | model \<Rightarrow> ''MODEL'')"

text \<open>The transcript handed to the extraction: one line per message.\<close>

definition historyText :: "ChatMessage list \<Rightarrow> string" where
  "historyText messages =
     js_join [CHR 0x0A] (map (\<lambda>m. roleUpper (role m) @ '': '' @ msg_text m) messages)"

text \<open>
  \<^verbatim>\<open>handleFinish\<close>, with \<^verbatim>\<open>onComplete\<close> bound to \<^verbatim>\<open>handleRequirementsGathered\<close>.
  A failed extraction raises an alert and leaves the application state as it is.
\<close>

definition handleFinish :: "Gateway \<Rightarrow> Clock \<Rightarrow> ChatMessage list \<Rightarrow> App \<Rightarrow> App \<times> event list" where
  "handleFinish gw clock messages app =
     (let r = extractRequirements gw (historyText messages)
      in (case fst r of
            Inl e \<Rightarrow> app
          | Inr res \<Rightarrow>
              handleRequirementsGathered clock
                \<lparr>d_name = Some (or_string (Some (snd res)) ''New Validation Project''),
                 d_platformVersion = Some ''1.0.0'',
                 d_requirements = Some (fst res),
                 d_chatHistory = Some messages\<rparr> app,
          snd r))"

section \<open>Spreadsheet import (excelService, parseExcelRequirements)\<close>

text \<open>
  A row of \<^verbatim>\<open>sheet_to_json\<close>: the cells of the row by column header, in column
  order. A cell holds a string, a number (an integer here) or a boolean.
\<close>

datatype cell = Str string | Num int | Bool bool

type_synonym row = "(string \<times> cell) list"

definition truthy :: "cell option \<Rightarrow> bool" where
  "truthy c =
     (case c of
        None \<Rightarrow> False
      | Some (Str s) \<Rightarrow> s \<noteq> []
      | Some (Num n) \<Rightarrow> n \<noteq> 0
      | Some (Bool b) \<Rightarrow> b)"

definition js_or :: "cell option \<Rightarrow> cell option \<Rightarrow> cell option" where
  "js_or a b = (if truthy a then a else b)"

text \<open>\<^verbatim>\<open>String(v)\<close>\<close>

definition toString :: "cell option \<Rightarrow> string" where
  "toString c =
     (case c of
        None \<Rightarrow> ''undefined''
      | Some (Str s) \<Rightarrow> s
      | Some (Num n) \<Rightarrow> showInt n
      | Some (Bool b) \<Rightarrow> if b then ''true'' else ''false'')"

text \<open>\<^verbatim>\<open>Object.values(row)[0]\<close>\<close>

definition firstValue :: "row \<Rightarrow> cell option" where
  "firstValue r = (case r of [] \<Rightarrow> None | kv # _ \<Rightarrow> Some (snd kv))"

text \<open>Letter case, for the letters A to Z; every other character is left as it is.\<close>

definition toLowerCase :: "string \<Rightarrow> string" where
  "toLowerCase s =
     map (\<lambda>c. case map_of (zip ''ABCDEFGHIJKLMNOPQRSTUVWXYZ'' ''abcdefghijklmnopqrstuvwxyz'') c of
                None \<Rightarrow> c
              | Some l \<Rightarrow> l) s"

fun startsWith :: "string \<Rightarrow> string \<Rightarrow> bool" where
  "startsWith s [] = True"
| "startsWith [] (c # cs) = False"
| "startsWith (x # xs) (c # cs) = (x = c \<and> startsWith xs cs)"

fun js_includes :: "string \<Rightarrow> string \<Rightarrow> bool" where
  "js_includes [] sub = (sub = [])"
| "js_includes (x # xs) sub = (startsWith (x # xs) sub \<or> js_includes xs sub)"

text \<open>The white space that \<^verbatim>\<open>trim()\<close> removes, among the characters below 256.\<close>

definition isWhitespace :: "char \<Rightarrow> bool" where
  "isWhitespace c = ((of_char c :: nat) \<in> {9, 10, 11, 12, 13, 32, 160})"

definition trim :: "string \<Rightarrow> string" where
  "trim s = rev (dropWhile isWhitespace (rev (dropWhile isWhitespace s)))"

text \<open>A string that is empty or consists of white space only.\<close>

definition blank :: "string \<Rightarrow> bool" where
  "blank s = list_all isWhitespace s"

text \<open>The resolved description of a row, as the string \<^verbatim>\<open>String(description)\<close>.\<close>

definition rowDescription :: "row \<Rightarrow> string" where
  "rowDescription r =
     toString (js_or (js_or (js_or (map_of r ''Description'') (map_of r ''Requirement''))
                            (map_of r ''desc''))
                     (firstValue r))"

text \<open>The callback of \<^verbatim>\<open>jsonData.map\<close>.\<close>

definition rowToRequirement :: "(nat \<Rightarrow> nat) \<Rightarrow> row \<Rightarrow> nat \<Rightarrow> Requirement" where
  "rowToRequirement now r index =
     (let typeRaw = js_or (js_or (map_of r ''Type'') (map_of r ''Category''))
                          (Some (Str ''Functional''));
          priorityRaw = js_or (map_of r ''Priority'') (Some (Str ''Medium''));
          type0 = FUNCTIONAL;
          type1 = (if js_includes (toLowerCase (toString typeRaw)) ''user'' then USER else type0);
          type2 = (if js_includes (toLowerCase (toString typeRaw)) ''tech'' then TECHNICAL else type1);
          priority0 = Medium;
          priority1 = (if js_includes (toLowerCase (toString priorityRaw)) ''high'' then High
                       else priority0);
          priority2 = (if js_includes (toLowerCase (toString priorityRaw)) ''low'' then Low
                       else priority1)
      in \<lparr>r_id = ''REQ-IMPORT-'' @ decimal (now index) @ ''-'' @ decimal index,
          r_type = type2,
          description = rowDescription r,
          priority = priority2\<rparr>)"

definition toUpperCase_char :: "char \<Rightarrow> char" where
  "toUpperCase_char c =
     (case map_of (zip ''abcdefghijklmnopqrstuvwxyz'' ''ABCDEFGHIJKLMNOPQRSTUVWXYZ'') c of
        None \<Rightarrow> c
      | Some u \<Rightarrow> u)"

definition projectNameOf :: "string \<Rightarrow> string" where
  "projectNameOf fileName0 =
     (let fileName = takeWhile (\<lambda>c. c \<noteq> CHR ''.'') fileName0
      in map toUpperCase_char (take 1 fileName) @
         map (\<lambda>c. if c = CHR ''-'' \<or> c = CHR ''_'' then CHR '' '' else c) (drop 1 fileName))"

text \<open>
  \<^verbatim>\<open>parseExcelRequirements\<close>: \<open>sheet\<close> is the outcome of reading the first
  worksheet (a read or parse failure rejects the promise).
\<close>

definition parseExcelRequirements ::
  "(nat \<Rightarrow> nat) \<Rightarrow> string \<Rightarrow> error + row list \<Rightarrow> error + Requirement list \<times> string" where
  "parseExcelRequirements now fileName sheet =
     (case sheet of
        Inl e \<Rightarrow> Inl e
      | Inr jsonData \<Rightarrow>
          Inr (filter (\<lambda>req. description req \<noteq> [] \<and> trim (description req) \<noteq> [])
                 (js_mapi (rowToRequirement now) jsonData),
               projectNameOf fileName))"

section \<open>Example data\<close>

definition mkStep :: "int \<Rightarrow> TestStep" where
  "mkStep n =
     \<lparr>stepNumber = n, action = ''Open the login page'', expectedResult = ''The form is shown''\<rparr>"

definition mkCase :: "string \<Rightarrow> int list \<Rightarrow> TestStatus \<Rightarrow> TestCase" where
  "mkCase i ns st =
     \<lparr>tc_id = i, requirementId = ''REQ-1-0'', title = ''Login works'', steps = map mkStep ns,
      status = st, logs = [], screenshotUrl = None, failedStepNumber = None,
      failureReason = None\<rparr>"

definition mkProject :: "TestCase list \<Rightarrow> ProjectStatus \<Rightarrow> ValidationProject" where
  "mkProject cs st =
     \<lparr>p_id = ''PROJ-1700000000000'', name = ''Login'', platformVersion = ''1.0.0'',
      p_status = st, createdAt = ''2026-01-01T00:00:00.000Z'', requirements = [],
      testCases = cs, chatHistory = [], environmentConfig = None\<rparr>"

definition failedCase :: TestCase where
  "failedCase =
     (mkCase ''TC-1-1'' [1, 2] FAILED)
       \<lparr>logs := [''Result: Failed at Step 2''], screenshotUrl := Some ''data:image/png'',
        failedStepNumber := Some 2, failureReason := Some ''Button is not clickable''\<rparr>"

definition mkApp :: "AppView \<Rightarrow> ValidationProject option \<Rightarrow> App" where
  "mkApp v p = \<lparr>currentView = v, activeProject = p, store = Map.empty\<rparr>"

text \<open>
  A gateway whose \<open>k\<close>-th model call has the outcome \<open>outcomes k\<close> and whose
  response parses to one functional requirement and the project name Login.
\<close>

definition mockGateway :: "(nat \<Rightarrow> error + string option) \<Rightarrow> Gateway" where
  "mockGateway outcomes =
     \<lparr>generateContent = (\<lambda>k req. outcomes k),
      prompt_extract = (\<lambda>h. h),
      prompt_generate = (\<lambda>rs. []),
      prompt_fix = (\<lambda>tc. []),
      prompt_refine = (\<lambda>tc i. i),
      prompt_code = (\<lambda>cs f e. f),
      parse_requirements = (\<lambda>t. Inr ([\<lparr>raw_type = FUNCTIONAL, raw_description = ''Login works'',
                                          raw_priority = High\<rparr>], ''Login'')),
      parse_testCases = (\<lambda>t. Inr [\<lparr>raw_requirementId = ''REQ-1-0'', raw_title = ''Login works'',
                                     raw_steps = [mkStep 1]\<rparr>]),
      parse_fix = (\<lambda>t. Inr ([mkStep 1, mkStep 2], ''Added a wait'')),
      parse_refine = (\<lambda>t. Inr (''Login works'', [mkStep 1])),
      stripFences = (\<lambda>t. t),
      gw_now = (\<lambda>i. 1700000000000)\<rparr>"

definition transcript :: "ChatMessage list" where
  "transcript =
     [\<lparr>role = model, msg_text = ''Hello'', timestamp = 1\<rparr>,
      \<lparr>role = user, msg_text = ''Validate the login form'', timestamp = 2\<rparr>,
      \<lparr>role = model, msg_text = ''Which users?'', timestamp = 3\<rparr>,
      \<lparr>role = user, msg_text = ''Admins'', timestamp = 4\<rparr>,
      \<lparr>role = user, msg_text = ''That is all'', timestamp = 5\<rparr>]"

definition clock0 :: Clock where
  "clock0 = \<lparr>dateNow = 1700000000000, isoNow = ''2026-01-01T00:00:00.000Z''\<rparr>"

text \<open>An environment whose random draws are the given ones, then 1/2 for ever.\<close>

definition mkEnv :: "rat list \<Rightarrow> RunnerEnv" where
  "mkEnv ds =
     \<lparr>random = (\<lambda>k. if k < length ds then ds ! k else 1 / 2),
      generateScreenshot = (\<lambda>st t f r. ''data:image/png''),
      consoleLogs = []\<rparr>"

text \<open>A model call that fails at every attempt, with the attempt number as its message.\<close>

definition failing :: "nat \<Rightarrow> error + string option" where
  "failing k = Inl (Error (''HTTP 503 at attempt '' @ decimal k))"

text \<open>
  Draws at which the rounded product differs from the exact one. The outcome draw
  is 1/8. Seven times the second draw is \<open>4 - 2\<^sup>-\<^sup>5\<^sup>2\<close> and rounds to 4. The third
  draw is the double nearest to 6/10; five times it is \<open>3 - 2\<^sup>-\<^sup>5\<^sup>3\<close> and rounds to 3.
\<close>

definition roundingEnv :: RunnerEnv where
  "roundingEnv =
     mkEnv [1 / 8, 2573485501354569 / 4503599627370496, 5404319552844595 / 9007199254740992]"

definition sevenSteps :: TestCase where
  "sevenSteps = mkCase ''TC-1-3'' [1, 2, 3, 4, 5, 6, 7] PENDING"

text \<open>Rows of an imported sheet.\<close>

definition sampleRow :: row where
  "sampleRow = [(''Description'', Str ''Login works''), (''Priority'', Str ''High, not low'')]"

definition urgentRow :: row where
  "urgentRow = [(''Requirement'', Str ''Password reset''), (''Priority'', Str ''HIGH'')]"

definition blankRow :: row where
  "blankRow = [(''Description'', Str [CHR 0x20, CHR 0x20]), (''Priority'', Str ''High'')]"

section \<open>Step numbering under edits\<close>

lemma renumber_enumerate:
  "map (\<lambda>(i, x). int i + 1) (enumerate k xs) = [int k + 1..int k + int (length xs)]"
proof (induction xs arbitrary: k)
  case Nil
  then show ?case by simp
next
  case (Cons x xs)
  have "[int k + 1..int k + int (length (x # xs))] =
        (int k + 1) # [int (Suc k) + 1..int (Suc k) + int (length xs)]"
    by (subst upto_rec1) (simp_all add: add.commute add.left_commute)
  with Cons.IH [of "Suc k"] show ?case by simp
qed

lemma renumber_contiguous:
  "contiguous (js_mapi (\<lambda>s i. s\<lparr>stepNumber := int i + 1\<rparr>) xs)"
  using renumber_enumerate [of 0 xs]
  by (simp add: contiguous_def js_mapi_def comp_def case_prod_unfold)

lemma append_contiguous:
  assumes "contiguous ss"
  shows "contiguous (ss @ [\<lparr>stepNumber = int (length ss) + 1, action = a, expectedResult = e\<rparr>])"
proof -
  have "[1..int (length ss) + 1] = [1..int (length ss)] @ [int (length ss) + 1]"
    using upto_rec2 [of 1 "int (length ss) + 1"] by simp
  with assms show ?thesis by (simp add: contiguous_def add.commute)
qed

text \<open>
  C2, as amended. Removing a step, in the test-plan editor and in the fix modal,
  leaves the steps numbered \<open>1, 2, ..., n\<close> whatever their numbers were before. Adding
  a step gives the new step the number \<open>length + 1\<close> and does not renumber the others:
  the result is numbered \<open>1, 2, ..., n\<close> when the steps were so numbered before the edit.
\<close>

theorem step_edits_keep_numbering:
  "(\<exists>tc'. TestPlanView_removeStep index (Some tc) = Some tc' \<and> contiguous (steps tc')) \<and>
   (\<exists>tc'. ReportView_removeStep index (Some tc) = Some tc' \<and> contiguous (steps tc')) \<and>
   (contiguous (steps tc) \<longrightarrow>
      (\<exists>tc'. TestPlanView_addStep (Some tc) = Some tc' \<and> contiguous (steps tc')) \<and>
      (\<exists>tc'. ReportView_addStep (Some tc) = Some tc' \<and> contiguous (steps tc')))"
  by (simp add: TestPlanView_removeStep_def ReportView_removeStep_def TestPlanView_addStep_def
      ReportView_addStep_def renumber_contiguous append_contiguous)

theorem step_edits_keep_numbering_witness:
  "contiguous (steps (mkCase ''TC-1-0'' [1, 2] PENDING)) \<and>
   map stepNumber (steps (the (TestPlanView_addStep (Some (mkCase ''TC-1-0'' [1, 2] PENDING)))))
     = [1, 2, 3] \<and>
   map stepNumber (steps (the (ReportView_addStep (Some (mkCase ''TC-1-0'' [1, 2] PENDING)))))
     = [1, 2, 3] \<and>
   map stepNumber (steps (the (TestPlanView_removeStep 0 (Some (mkCase ''TC-1-0'' [1, 2] PENDING)))))
     = [1]"
  using step_edits_keep_numbering [of 0 "mkCase ''TC-1-0'' [1, 2] PENDING"]
  by (simp add: contiguous_def mkCase_def mkStep_def TestPlanView_addStep_def ReportView_addStep_def
      TestPlanView_removeStep_def js_mapi_def js_filteri_def enumerate_eq_zip upto_rec1)

text \<open>
  C2 as stated fails: a case whose two steps carry the numbers 0 and 1 (numbers
  come from the model's response as they are) has the numbers 0, 1, 3 after one add-step.
\<close>

theorem add_step_counterexample:
  "map stepNumber (steps (the (TestPlanView_addStep (Some (mkCase ''TC-1-0'' [0, 1] PENDING)))))
     = [0, 1, 3] \<and>
   \<not> contiguous (steps (the (TestPlanView_addStep (Some (mkCase ''TC-1-0'' [0, 1] PENDING)))))"
  by (simp add: contiguous_def mkCase_def mkStep_def TestPlanView_addStep_def upto_rec1)

section \<open>Saving a fix from the report\<close>

lemma saved_project:
  "snd (handleSaveAndRetry project (Some sel) app) =
     app\<lparr>activeProject :=
           Some (project\<lparr>testCases :=
                            map (\<lambda>tc. if tc_id tc = tc_id sel then resetForRetry sel else tc)
                                (testCases project),
                         p_status := InProgress\<rparr>),
         store := saveProjectToHistory (store app)
                    (project\<lparr>testCases :=
                               map (\<lambda>tc. if tc_id tc = tc_id sel then resetForRetry sel else tc)
                                   (testCases project),
                             p_status := InProgress\<rparr>),
         currentView := EXECUTION\<rparr>"
  by (simp add: handleSaveAndRetry_def handleUpdateProject_def handleRetryExecution_def Let_def)

text \<open>
  C3. Saving the fix modal's case \<open>sel\<close> (edited by hand, or with the steps an AI fix
  installed) makes the updated project the active and the stored one; in it the case
  with the identifier of \<open>sel\<close> is \<open>sel\<close> with status Pending, no failed step number,
  no failure reason, no screenshot and no logs, so it carries the edited steps, and
  every case with another identifier is the same as before.
\<close>

theorem save_fix_resets_case:
  "\<exists>p'. activeProject (snd (handleSaveAndRetry project (Some sel) app)) = Some p' \<and>
        store (snd (handleSaveAndRetry project (Some sel) app)) (p_id p') = Some p' \<and>
        length (testCases p') = length (testCases project) \<and>
        (\<forall>i < length (testCases project).
           if tc_id (testCases project ! i) = tc_id sel
           then testCases p' ! i =
                  sel\<lparr>status := PENDING, failedStepNumber := None, failureReason := None,
                      screenshotUrl := None, logs := []\<rparr> \<and>
                status (testCases p' ! i) = PENDING \<and>
                failedStepNumber (testCases p' ! i) = None \<and>
                failureReason (testCases p' ! i) = None \<and>
                screenshotUrl (testCases p' ! i) = None \<and>
                logs (testCases p' ! i) = [] \<and>
                steps (testCases p' ! i) = steps sel
           else testCases p' ! i = testCases project ! i)"
  by (simp add: saved_project saveProjectToHistory_def resetForRetry_def)

theorem save_fix_resets_case_witness:
  "testCases (the (activeProject (snd (handleSaveAndRetry
       (mkProject [mkCase ''TC-1-0'' [1] PASSED, failedCase] PartlyValidated)
       (Some (failedCase\<lparr>steps := map mkStep [1, 2, 3]\<rparr>))
       (mkApp REPORT (Some (mkProject [mkCase ''TC-1-0'' [1] PASSED, failedCase] PartlyValidated)))))))
   = [mkCase ''TC-1-0'' [1] PASSED, mkCase ''TC-1-1'' [1, 2, 3] PENDING]"
  using save_fix_resets_case
     [of "mkProject [mkCase ''TC-1-0'' [1] PASSED, failedCase] PartlyValidated"
         "failedCase\<lparr>steps := map mkStep [1, 2, 3]\<rparr>"
         "mkApp REPORT (Some (mkProject [mkCase ''TC-1-0'' [1] PASSED, failedCase] PartlyValidated))"]
  by (simp add: saved_project mkProject_def mkCase_def failedCase_def mkApp_def resetForRetry_def)

text \<open>
  C10. Saving a fix makes the project's aggregate status In Progress, in the active
  project and in the stored record, whatever the status was before, while the status
  of every case with another identifier than the fixed one stays as it was.
\<close>

theorem save_fix_sets_in_progress:
  "\<exists>p'. activeProject (snd (handleSaveAndRetry project (Some sel) app)) = Some p' \<and>
        p_status p' = InProgress \<and>
        (\<exists>q. store (snd (handleSaveAndRetry project (Some sel) app)) (p_id project) = Some q \<and>
              p_status q = InProgress) \<and>
        (\<forall>i < length (testCases project).
           tc_id (testCases project ! i) \<noteq> tc_id sel \<longrightarrow>
           status (testCases p' ! i) = status (testCases project ! i))"
  by (simp add: saved_project saveProjectToHistory_def)

theorem save_fix_sets_in_progress_witness:
  "p_status (mkProject [mkCase ''TC-1-0'' [1] PASSED, failedCase] PartlyValidated) = PartlyValidated \<and>
   p_status (the (activeProject (snd (handleSaveAndRetry
       (mkProject [mkCase ''TC-1-0'' [1] PASSED, failedCase] PartlyValidated)
       (Some failedCase)
       (mkApp REPORT (Some (mkProject [mkCase ''TC-1-0'' [1] PASSED, failedCase] PartlyValidated)))))))
     = InProgress \<and>
   map status (testCases (the (activeProject (snd (handleSaveAndRetry
       (mkProject [mkCase ''TC-1-0'' [1] PASSED, failedCase] PartlyValidated)
       (Some failedCase)
       (mkApp REPORT (Some (mkProject [mkCase ''TC-1-0'' [1] PASSED, failedCase] PartlyValidated))))))))
     = [PASSED, PENDING]"
  using save_fix_sets_in_progress
     [of "mkProject [mkCase ''TC-1-0'' [1] PASSED, failedCase] PartlyValidated"
         "failedCase"
         "mkApp REPORT (Some (mkProject [mkCase ''TC-1-0'' [1] PASSED, failedCase] PartlyValidated))"]
  by (simp add: saved_project mkProject_def mkCase_def failedCase_def mkApp_def resetForRetry_def)

section \<open>From the conversation to a draft project\<close>

lemma gathered:
  "handleRequirementsGathered clock data app =
     app\<lparr>activeProject := Some \<lparr>p_id = ''PROJ-'' @ decimal (dateNow clock),
             name = or_string (d_name data) ''Untitled Project'',
             platformVersion = or_string (d_platformVersion data) ''1.0.0'',
             p_status = Draft,
             createdAt = isoNow clock,
             requirements = or_array (d_requirements data),
             testCases = [],
             chatHistory = or_array (d_chatHistory data),
             environmentConfig = None\<rparr>,
         store := (store app)(''PROJ-'' @ decimal (dateNow clock) \<mapsto>
            \<lparr>p_id = ''PROJ-'' @ decimal (dateNow clock),
             name = or_string (d_name data) ''Untitled Project'',
             platformVersion = or_string (d_platformVersion data) ''1.0.0'',
             p_status = Draft,
             createdAt = isoNow clock,
             requirements = or_array (d_requirements data),
             testCases = [],
             chatHistory = or_array (d_chatHistory data),
             environmentConfig = None\<rparr>),
         currentView := REVIEW_PLAN\<rparr>"
  by (simp add: handleRequirementsGathered_def saveProjectToHistory_def Let_def)

lemma extract_mock:
  "fst (extractRequirements (mockGateway (\<lambda>k. Inr (Some ''{}''))) (historyText transcript)) =
     Inr ([\<lparr>r_id = ''REQ-1700000000000-0'', r_type = FUNCTIONAL, description = ''Login works'',
            priority = High\<rparr>], ''Login'')"
  by (simp add: extractRequirements_def mockGateway_def retry.simps requireText_def js_mapi_def
      decimal.simps digit_def)

text \<open>
  C9. When the extraction of requirements from the transcript succeeds, finishing
  the conversation makes a new project the active one: its status is Draft, its list
  of test cases is empty, it holds the extracted requirements and the transcript; the
  project is saved in the record store under its identifier in the same step, and the
  view becomes ReviewPlan.
\<close>

theorem extraction_creates_draft:
  assumes "fst (extractRequirements gw (historyText messages)) = Inr (reqs, nm)"
  shows "\<exists>p. activeProject (fst (handleFinish gw clock messages app)) = Some p \<and>
             p_status p = Draft \<and> testCases p = [] \<and>
             requirements p = reqs \<and> chatHistory p = messages \<and>
             store (fst (handleFinish gw clock messages app)) = saveProjectToHistory (store app) p \<and>
             store (fst (handleFinish gw clock messages app)) (p_id p) = Some p \<and>
             currentView (fst (handleFinish gw clock messages app)) = REVIEW_PLAN"
proof -
  have "fst (handleFinish gw clock messages app) =
        handleRequirementsGathered clock
          \<lparr>d_name = Some (or_string (Some nm) ''New Validation Project''),
           d_platformVersion = Some ''1.0.0'',
           d_requirements = Some reqs,
           d_chatHistory = Some messages\<rparr> app"
    by (simp add: handleFinish_def Let_def assms)
  then show ?thesis
    by (simp add: gathered or_array_def saveProjectToHistory_def)
qed

theorem extraction_creates_draft_witness:
  "fst (extractRequirements (mockGateway (\<lambda>k. Inr (Some ''{}''))) (historyText transcript)) =
     Inr ([\<lparr>r_id = ''REQ-1700000000000-0'', r_type = FUNCTIONAL, description = ''Login works'',
            priority = High\<rparr>], ''Login'') \<and>
   (\<exists>p. activeProject (fst (handleFinish (mockGateway (\<lambda>k. Inr (Some ''{}''))) clock0 transcript
                 (mkApp GATHER_REQUIREMENTS None))) = Some p \<and>
        p_status p = Draft \<and> testCases p = [] \<and> length (requirements p) = 1 \<and>
        store (fst (handleFinish (mockGateway (\<lambda>k. Inr (Some ''{}''))) clock0 transcript
                 (mkApp GATHER_REQUIREMENTS None))) (p_id p) = Some p) \<and>
   currentView (fst (handleFinish (mockGateway (\<lambda>k. Inr (Some ''{}''))) clock0 transcript
                 (mkApp GATHER_REQUIREMENTS None))) = REVIEW_PLAN"
proof -
  from extraction_creates_draft [OF extract_mock, of clock0 "mkApp GATHER_REQUIREMENTS None"]
  obtain p where p:
    "activeProject (fst (handleFinish (mockGateway (\<lambda>k. Inr (Some ''{}''))) clock0 transcript
                 (mkApp GATHER_REQUIREMENTS None))) = Some p"
    "p_status p = Draft" "testCases p = []"
    "requirements p = [\<lparr>r_id = ''REQ-1700000000000-0'', r_type = FUNCTIONAL,
                          description = ''Login works'', priority = High\<rparr>]"
    "store (fst (handleFinish (mockGateway (\<lambda>k. Inr (Some ''{}''))) clock0 transcript
                 (mkApp GATHER_REQUIREMENTS None))) (p_id p) = Some p"
    "currentView (fst (handleFinish (mockGateway (\<lambda>k. Inr (Some ''{}''))) clock0 transcript
                 (mkApp GATHER_REQUIREMENTS None))) = REVIEW_PLAN"
    by blast
  from p(4) have "length (requirements p) = 1" by simp
  with p(1,2,3,5,6) extract_mock show ?thesis by blast
qed

section \<open>Rounding to a double\<close>

lemma bits_positive: "0 < n \<Longrightarrow> 0 < bits n"
  by (subst bits.simps) simp

lemma bits_bounds: "0 < n \<Longrightarrow> 2 ^ (bits n - 1) \<le> n \<and> n < 2 ^ bits n"
proof (induction n rule: bits.induct)
  case (1 n)
  then have n: "n \<noteq> 0" by simp
  have unfold: "bits n = Suc (bits (n div 2))"
    using n by (subst bits.simps) simp
  show ?case
  proof (cases "n div 2 = 0")
    case True
    with n have "n = 1" by (cases n) auto
    then show ?thesis by (simp add: unfold bits.simps)
  next
    case False
    then have pos: "0 < n div 2" by simp
    from "1.IH" [OF n pos]
    have lo: "2 ^ (bits (n div 2) - 1) \<le> n div 2" and hi: "n div 2 < 2 ^ bits (n div 2)"
      by simp_all
    from bits_positive [OF pos] obtain m where m: "bits (n div 2) = Suc m"
      by (cases "bits (n div 2)") auto
    from lo m have "2 * 2 ^ m \<le> 2 * (n div 2)" by simp
    also have "\<dots> \<le> n" by simp
    finally have a: "2 ^ (bits n - 1) \<le> n" by (simp add: unfold m)
    from hi have "Suc (n div 2) \<le> 2 ^ bits (n div 2)" by simp
    then have "2 * Suc (n div 2) \<le> 2 * 2 ^ bits (n div 2)" by simp
    moreover have "n < 2 * Suc (n div 2)" by simp
    ultimately have b: "n < 2 ^ bits n" by (simp add: unfold)
    from a b show ?thesis ..
  qed
qed

lemma exponent_bounds:
  assumes "0 < x"
  shows "2 powi exponent x \<le> x" and "x < 2 powi (exponent x + 1)"
proof -
  have both: "2 powi exponent x \<le> x \<and> x < 2 powi (exponent x + 1)"
  proof (cases "1 \<le> x")
    case True
    define z where "z = nat \<lfloor>x\<rfloor>"
    from True have fl: "1 \<le> \<lfloor>x\<rfloor>" by simp
    then have z: "0 < z" and zx: "of_nat z = (of_int \<lfloor>x\<rfloor> :: rat)"
      by (simp_all add: z_def)
    from bits_positive [OF z] obtain m where m: "bits z = Suc m"
      by (cases "bits z") auto
    from bits_bounds [OF z] m have lo: "2 ^ m \<le> z" and hi: "z < 2 ^ Suc m" by simp_all
    have e: "exponent x = int m"
      using True by (simp add: exponent_def z_def [symmetric] m)
    from lo have "(of_nat (2 ^ m) :: rat) \<le> of_nat z" by (simp only: of_nat_le_iff)
    then have "(2 :: rat) ^ m \<le> of_int \<lfloor>x\<rfloor>" by (simp add: zx)
    also have "\<dots> \<le> x" by simp
    finally have a: "2 powi exponent x \<le> x" by (simp add: e)
    from hi have "Suc z \<le> 2 ^ Suc m" by simp
    then have "(of_nat (Suc z) :: rat) \<le> of_nat (2 ^ Suc m)" by (simp only: of_nat_le_iff)
    then have "of_int \<lfloor>x\<rfloor> + 1 \<le> (2 :: rat) ^ Suc m" by (simp add: zx add.commute)
    moreover have "x < of_int \<lfloor>x\<rfloor> + 1" by linarith
    ultimately have "x < (2 :: rat) ^ Suc m" by simp
    moreover have "exponent x + 1 = int (Suc m)" by (simp add: e)
    ultimately have b: "x < 2 powi (exponent x + 1)" by (simp only: power_int_of_nat)
    from a b show ?thesis ..
  next
    case False
    with assms have x1: "x < 1" by simp
    define y where "y = 1 / x"
    from assms x1 have y1: "1 < y" by (simp add: y_def)
    define w where "w = nat (\<lceil>y\<rceil> - 1)"
    from y1 have c: "2 \<le> \<lceil>y\<rceil>" by linarith
    then have w: "0 < w" and wc: "of_nat w = (of_int \<lceil>y\<rceil> :: rat) - 1"
      by (simp_all add: w_def)
    from bits_positive [OF w] obtain m where m: "bits w = Suc m"
      by (cases "bits w") auto
    from bits_bounds [OF w] m have lo: "2 ^ m \<le> w" and hi: "w < 2 ^ Suc m" by simp_all
    have e: "exponent x = - int (Suc m)"
      using False by (simp add: exponent_def y_def [symmetric] w_def [symmetric] m)
    from hi have "Suc w \<le> 2 ^ Suc m" by simp
    then have "(of_nat (Suc w) :: rat) \<le> of_nat (2 ^ Suc m)" by (simp only: of_nat_le_iff)
    then have "of_int \<lceil>y\<rceil> \<le> (2 :: rat) ^ Suc m" by (simp add: wc)
    moreover have "y \<le> of_int \<lceil>y\<rceil>" by simp
    ultimately have "y \<le> (2 :: rat) ^ Suc m" by linarith
    then have "1 / (2 :: rat) ^ Suc m \<le> x"
      using assms by (simp add: y_def field_simps)
    moreover have "(2 :: rat) powi exponent x = 1 / 2 ^ Suc m"
      unfolding e by (simp only: power_int_minus_divide power_int_of_nat)
    ultimately have a: "2 powi exponent x \<le> x" by (simp only:)
    from lo have "(of_nat (2 ^ m) :: rat) \<le> of_nat w" by (simp only: of_nat_le_iff)
    then have "(2 :: rat) ^ m \<le> of_int \<lceil>y\<rceil> - 1" by (simp add: wc)
    moreover have "of_int \<lceil>y\<rceil> - 1 < y" by linarith
    ultimately have "(2 :: rat) ^ m < y" by linarith
    then have "x < 1 / (2 :: rat) ^ m"
      using assms by (simp add: y_def field_simps)
    moreover have "exponent x + 1 = - int m" by (simp add: e)
    then have "(2 :: rat) powi (exponent x + 1) = 1 / 2 ^ m"
      by (simp only: power_int_minus_divide power_int_of_nat)
    ultimately have b: "x < 2 powi (exponent x + 1)" by (simp only:)
    from a b show ?thesis ..
  qed
  then show "2 powi exponent x \<le> x" and "x < 2 powi (exponent x + 1)" by simp_all
qed

lemma roundHalfEven_bounds:
  shows "of_int (roundHalfEven y) \<le> y + 1 / 2"
    and "y - 1 / 2 \<le> of_int (roundHalfEven y)"
proof -
  define f where "f = \<lfloor>y\<rfloor>"
  have fb: "of_int f \<le> y" "y < of_int f + 1"
    unfolding f_def by linarith+
  have r: "roundHalfEven y =
      (if y - of_int f < 1 / 2 then f
       else if 1 / 2 < y - of_int f then f + 1
       else if even f then f else f + 1)"
    by (simp add: roundHalfEven_def Let_def f_def)
  from fb show "of_int (roundHalfEven y) \<le> y + 1 / 2"
    unfolding r by (auto split: if_splits)
  from fb show "y - 1 / 2 \<le> of_int (roundHalfEven y)"
    unfolding r by (auto split: if_splits)
qed

lemma double_below_one:
  assumes "isDouble r" "r < 1"
  shows "r \<le> 1 - 1 / 2 ^ 53"
proof (cases "r \<le> 1 / 2")
  case True
  then show ?thesis by simp
next
  case False
  then have half: "1 / 2 < r" and pos: "0 < r" by simp_all
  note eb = exponent_bounds [OF pos]
  have neg: "exponent r < 0"
  proof (rule ccontr)
    assume "\<not> exponent r < 0"
    then have "(2 :: rat) powi 0 \<le> 2 powi exponent r"
      by (intro power_int_increasing) simp_all
    with eb(1) assms(2) show False by simp
  qed
  have "- 1 \<le> exponent r"
  proof (rule ccontr)
    assume "\<not> - 1 \<le> exponent r"
    then have "(2 :: rat) powi (exponent r + 1) \<le> 2 powi (- 1)"
      by (intro power_int_increasing) simp_all
    with eb(2) half show False by simp
  qed
  with neg have e: "exponent r = - 1" by simp
  have u: "ulp r = 1 / 2 ^ 53"
    using pos by (simp add: ulp_def e power_int_minus_divide)
  define k where "k = roundHalfEven (r / ulp r)"
  have "toDouble r = of_int k * ulp r"
    unfolding toDouble_def k_def using pos by simp
  with assms(1) have "r = of_int k * ulp r"
    unfolding isDouble_def by simp
  then have r: "r = of_int k / 2 ^ 53"
    unfolding u by simp
  with assms(2) have "(of_int k :: rat) < 2 ^ 53" by simp
  then have "(of_int k :: rat) < of_int (2 ^ 53)" by simp
  then have "k < 2 ^ 53" by (simp only: of_int_less_iff)
  then have "k \<le> 2 ^ 53 - 1" by simp
  then have "(of_int k :: rat) \<le> of_int (2 ^ 53 - 1)" by (simp only: of_int_le_iff)
  then have "(of_int k :: rat) \<le> 2 ^ 53 - 1" by simp
  then have "of_int k / 2 ^ 53 \<le> ((2 :: rat) ^ 53 - 1) / 2 ^ 53"
    by (simp add: divide_right_mono)
  with r show ?thesis by simp
qed

lemma product_below:
  assumes r: "isDouble r" "0 \<le> r" "r < 1" and n: "0 < n" "n < 2 ^ 53"
  shows "0 \<le> toDouble (r * of_nat n)" and "toDouble (r * of_nat n) < of_nat n"
proof -
  have both: "0 \<le> toDouble (r * of_nat n) \<and> toDouble (r * of_nat n) < of_nat n"
  proof (cases "r = 0")
    case True
    with n show ?thesis by (simp add: toDouble_def)
  next
    case False
    with r have rpos: "0 < r" by simp
    define x where "x = r * of_nat n"
    from rpos n have xpos: "0 < x" by (simp add: x_def)
    from r(3) n have xn: "x < of_nat n" by (simp add: x_def)
    define g where "g = max (exponent x) (- 1022)"
    define q where "q = (2 :: rat) powi (g - 52)"
    have u: "ulp x = q" using xpos by (simp add: ulp_def g_def q_def)
    have qpos: "0 < q" by (simp add: q_def)
    have small: "(2 :: rat) powi g < of_nat n"
    proof (cases "- 1022 \<le> exponent x")
      case True
      then have "g = exponent x" by (simp add: g_def)
      with exponent_bounds(1) [OF xpos] xn show ?thesis by simp
    next
      case False
      then have "g = - 1022" by (simp add: g_def)
      moreover have "(2 :: rat) powi (- 1022) < 2 powi 0"
        by (intro power_int_strict_increasing) simp_all
      moreover from n have "(1 :: rat) \<le> of_nat n" by simp
      ultimately show ?thesis by simp
    qed
    have g53: "g < 53"
    proof (rule ccontr)
      assume "\<not> g < 53"
      then have "(2 :: rat) powi 53 \<le> 2 powi g"
        by (intro power_int_increasing) simp_all
      moreover from n(2) have "(of_nat n :: rat) < of_nat (2 ^ 53)" by (simp only: of_nat_less_iff)
      ultimately show False using small by simp
    qed
    define N where "N = int n * 2 ^ nat (52 - g)"
    have pw: "(2 :: rat) ^ nat (52 - g) = 2 powi (52 - g)"
      using g53 by (simp add: power_int_nonneg_exp)
    have Nq: "of_int N * q = of_nat n"
    proof -
      have "(2 :: rat) powi (52 - g) * 2 powi (g - 52) = 2 powi ((52 - g) + (g - 52))"
        by (rule power_int_add [symmetric]) simp
      then have "(2 :: rat) powi (52 - g) * 2 powi (g - 52) = 1" by simp
      then show ?thesis by (simp add: N_def pw q_def mult.assoc)
    qed
    define y where "y = x / q"
    have yN: "y = r * of_int N"
    proof -
      have "x = r * (of_int N * q)" by (simp add: x_def Nq)
      then show ?thesis using qpos by (simp add: y_def)
    qed
    have Npos: "0 \<le> (of_int N :: rat)" by (simp add: N_def)
    have half: "1 / 2 < of_int N / (2 :: rat) ^ 53"
    proof -
      define P where "P = (2 :: rat) powi g"
      have Ppos: "0 < P" by (simp add: P_def)
      have "(2 :: rat) powi (52 - g) = 2 powi 52 / 2 powi g"
        by (rule power_int_diff) simp
      then have p: "(2 :: rat) powi (52 - g) = 2 ^ 52 / P" by (simp add: P_def)
      have "of_int N / (2 :: rat) ^ 53 = of_nat n * (2 ^ 52 / P) / 2 ^ 53"
        unfolding N_def by (simp only: of_int_mult of_int_of_nat_eq of_int_power of_int_numeral pw p)
      also have "\<dots> = of_nat n / (2 * P)"
        using Ppos by (simp add: field_simps)
      finally have "of_int N / (2 :: rat) ^ 53 = of_nat n / (2 * P)" .
      moreover have "1 / 2 < (of_nat n :: rat) / (2 * P)"
        using small Ppos by (simp add: field_simps P_def)
      ultimately show ?thesis by simp
    qed
    have "y \<le> (1 - 1 / 2 ^ 53) * of_int N"
      unfolding yN using double_below_one [OF r(1) r(3)] Npos by (rule mult_right_mono)
    also have "\<dots> = of_int N - of_int N / 2 ^ 53" by (simp add: algebra_simps)
    finally have ylt: "y + 1 / 2 < of_int N" using half by simp
    define K where "K = roundHalfEven y"
    from roundHalfEven_bounds(1) [of y] ylt have "(of_int K :: rat) < of_int N"
      by (simp add: K_def)
    then have "K < N" by (simp only: of_int_less_iff)
    then have "K \<le> N - 1" by simp
    then have "(of_int K :: rat) \<le> of_int (N - 1)" by (simp only: of_int_le_iff)
    then have "of_int K * q \<le> (of_int N - 1) * q"
      using qpos by (simp add: mult_right_mono)
    also have "\<dots> = of_nat n - q" by (simp add: left_diff_distrib Nq)
    also have "\<dots> < of_nat n" using qpos by simp
    finally have upper: "of_int K * q < of_nat n" .
    have "0 \<le> y" using xpos qpos by (simp add: y_def)
    with roundHalfEven_bounds(2) [of y] have "- 1 < (of_int K :: rat)"
      by (simp add: K_def)
    then have "(of_int (- 1) :: rat) < of_int K" by simp
    then have "- 1 < K" by (simp only: of_int_less_iff)
    then have "0 \<le> K" by simp
    then have lower: "0 \<le> of_int K * q" using qpos by simp
    have "toDouble x = of_int K * q"
      using xpos by (simp add: toDouble_def u K_def y_def)
    with lower upper show ?thesis by (simp add: x_def)
  qed
  then show "0 \<le> toDouble (r * of_nat n)" and "toDouble (r * of_nat n) < of_nat n"
    by simp_all
qed

lemma floor_product:
  assumes "isDouble r" "0 \<le> r" "r < 1" "0 < n" "n < 2 ^ 53"
  shows "0 \<le> \<lfloor>toDouble (r * of_nat n)\<rfloor> \<and> \<lfloor>toDouble (r * of_nat n)\<rfloor> < int n"
  using product_below [OF assms] by (simp add: floor_less_iff)

section \<open>The execution pass\<close>

lemma body_length [simp]: "length (updatedCases (runTests_body env i s)) = length (updatedCases s)"
  by (simp add: runTests_body_def Let_def)

lemma body_skip: "status (updatedCases s ! i) = PASSED \<Longrightarrow> runTests_body env i s = s"
  by (simp add: runTests_body_def)

lemma body_other: "j \<noteq> i \<Longrightarrow> updatedCases (runTests_body env i s) ! j = updatedCases s ! j"
  by (simp add: runTests_body_def Let_def)

lemma case_status: "status (fst (runTests_case env tc k)) = PASSED \<or> status (fst (runTests_case env tc k)) = FAILED"
  by (simp add: runTests_case_def Let_def split: prod.splits)

lemma body_at:
  "i < length (updatedCases s) \<Longrightarrow> status (updatedCases s ! i) \<noteq> PASSED \<Longrightarrow>
   updatedCases (runTests_body env i s) ! i = fst (runTests_case env (updatedCases s ! i) (draws s))"
  by (simp add: runTests_body_def Let_def)

lemma body_shown:
  "shown (runTests_body env i s) =
     (if status (updatedCases s ! i) = PASSED then shown s
      else shown s @ [(updatedCases s)[i := (updatedCases s ! i)\<lparr>status := RUNNING\<rparr>],
                      updatedCases (runTests_body env i s)])"
  by (simp add: runTests_body_def Let_def)

lemma body_activated:
  "activated (runTests_body env i s) =
     (if status (updatedCases s ! i) = PASSED then activated s
      else activated s @ [tc_id (updatedCases s ! i)])"
  by (simp add: runTests_body_def Let_def)

lemma loop_length [simp]: "length (updatedCases (runTests_loop env i s)) = length (updatedCases s)"
proof (induction env i s rule: runTests_loop.induct)
  case (1 env i s)
  show ?case
    by (subst runTests_loop.simps) (use 1 in auto)
qed

lemma loop_frame:
  "j < i \<or> status (updatedCases s ! j) = PASSED \<Longrightarrow>
   updatedCases (runTests_loop env i s) ! j = updatedCases s ! j"
proof (induction env i s rule: runTests_loop.induct)
  case (1 env i s)
  show ?case
  proof (cases "i < length (updatedCases s)")
    case False
    then show ?thesis by (subst runTests_loop.simps) simp
  next
    case True
    have keep: "updatedCases (runTests_body env i s) ! j = updatedCases s ! j"
    proof (cases "j = i")
      case True
      with "1.prems" have "status (updatedCases s ! i) = PASSED" by auto
      then show ?thesis by (simp add: body_skip)
    next
      case False
      then show ?thesis by (rule body_other)
    qed
    have "j < Suc i \<or> status (updatedCases (runTests_body env i s) ! j) = PASSED"
      using "1.prems" keep by auto
    with "1.IH" [OF True] have
      "updatedCases (runTests_loop env (Suc i) (runTests_body env i s)) ! j =
       updatedCases (runTests_body env i s) ! j" .
    with keep True show ?thesis by (subst runTests_loop.simps) simp
  qed
qed

lemma loop_shown_frame:
  "status (updatedCases s ! j) = PASSED \<Longrightarrow> j < length (updatedCases s) \<Longrightarrow>
   \<forall>snap \<in> set (shown s). snap ! j = updatedCases s ! j \<Longrightarrow>
   \<forall>snap \<in> set (shown (runTests_loop env i s)). snap ! j = updatedCases s ! j"
proof (induction env i s rule: runTests_loop.induct)
  case (1 env i s)
  show ?case
  proof (cases "i < length (updatedCases s)")
    case False
    then show ?thesis using "1.prems" by (subst runTests_loop.simps) simp
  next
    case True
    have keep: "updatedCases (runTests_body env i s) ! j = updatedCases s ! j"
      using "1.prems"(1) by (cases "j = i") (simp_all add: body_skip body_other)
    have snaps: "\<forall>snap \<in> set (shown (runTests_body env i s)). snap ! j = updatedCases s ! j"
    proof (cases "status (updatedCases s ! i) = PASSED")
      case True
      then show ?thesis using "1.prems"(3) by (simp add: body_skip)
    next
      case False
      with "1.prems"(1) have "j \<noteq> i" by auto
      with False "1.prems"(3) keep show ?thesis by (simp add: body_shown)
    qed
    from "1.IH" [OF True] keep snaps "1.prems"(1,2)
    have "\<forall>snap \<in> set (shown (runTests_loop env (Suc i) (runTests_body env i s))).
            snap ! j = updatedCases s ! j" by simp
    with True show ?thesis by (subst runTests_loop.simps) simp
  qed
qed

lemma loop_shown_mono: "set (shown s) \<subseteq> set (shown (runTests_loop env i s))"
proof (induction env i s rule: runTests_loop.induct)
  case (1 env i s)
  show ?case
  proof (cases "i < length (updatedCases s)")
    case False
    then show ?thesis by (subst runTests_loop.simps) simp
  next
    case True
    have "set (shown s) \<subseteq> set (shown (runTests_body env i s))"
      by (auto simp: body_shown)
    with "1.IH" [OF True] True show ?thesis by (subst runTests_loop.simps) auto
  qed
qed

lemma loop_final_status:
  "i \<le> j \<Longrightarrow> j < length (updatedCases s) \<Longrightarrow> status (updatedCases s ! j) \<noteq> PASSED \<Longrightarrow>
   status (updatedCases (runTests_loop env i s) ! j) \<in> {PASSED, FAILED} \<and>
   (\<exists>snap \<in> set (shown (runTests_loop env i s)). status (snap ! j) = RUNNING)"
proof (induction env i s rule: runTests_loop.induct)
  case (1 env i s)
  from "1.prems" have True: "i < length (updatedCases s)" by simp
  have unfold: "runTests_loop env i s = runTests_loop env (Suc i) (runTests_body env i s)"
    using True by (subst runTests_loop.simps) simp
  show ?case
  proof (cases "j = i")
    case True
    with "1.prems" have np: "status (updatedCases s ! i) \<noteq> PASSED" by simp
    have "updatedCases (runTests_loop env (Suc i) (runTests_body env i s)) ! i =
          updatedCases (runTests_body env i s) ! i"
      by (rule loop_frame) simp
    also have "\<dots> = fst (runTests_case env (updatedCases s ! i) (draws s))"
      using \<open>i < length (updatedCases s)\<close> np by (rule body_at)
    finally have fin: "status (updatedCases (runTests_loop env i s) ! i) \<in> {PASSED, FAILED}"
      using case_status [of env "updatedCases s ! i" "draws s"] unfold by auto
    have "(updatedCases s)[i := (updatedCases s ! i)\<lparr>status := RUNNING\<rparr>]
            \<in> set (shown (runTests_body env i s))"
      using np by (simp add: body_shown)
    then have "(updatedCases s)[i := (updatedCases s ! i)\<lparr>status := RUNNING\<rparr>]
            \<in> set (shown (runTests_loop env i s))"
      using loop_shown_mono [of "runTests_body env i s" env "Suc i"] unfold by auto
    moreover have "status ((updatedCases s)[i := (updatedCases s ! i)\<lparr>status := RUNNING\<rparr>] ! i) = RUNNING"
      using \<open>i < length (updatedCases s)\<close> by simp
    ultimately show ?thesis using fin True by blast
  next
    case False
    with "1.prems" have "Suc i \<le> j" by simp
    moreover have "updatedCases (runTests_body env i s) ! j = updatedCases s ! j"
      using False by (rule body_other)
    ultimately show ?thesis
      using "1.IH" [OF True] "1.prems" unfold by simp
  qed
qed

lemma loop_activated:
  "activated (runTests_loop env i s) =
     activated s @ map tc_id (filter (\<lambda>tc. status tc \<noteq> PASSED) (drop i (updatedCases s)))"
proof (induction env i s rule: runTests_loop.induct)
  case (1 env i s)
  show ?case
  proof (cases "i < length (updatedCases s)")
    case False
    then show ?thesis by (subst runTests_loop.simps) simp
  next
    case True
    have rest: "drop (Suc i) (updatedCases (runTests_body env i s)) = drop (Suc i) (updatedCases s)"
      by (rule nth_equalityI) (simp_all add: body_other)
    have split: "drop i (updatedCases s) = updatedCases s ! i # drop (Suc i) (updatedCases s)"
      using True by (simp add: Cons_nth_drop_Suc)
    from "1.IH" [OF True] rest split True show ?thesis
      by (subst runTests_loop.simps) (simp add: body_activated)
  qed
qed

lemma no_pending_iff:
  "(length (filter (\<lambda>tc. status tc = PENDING) cs) = 0) = (\<forall>tc \<in> set cs. status tc \<noteq> PENDING)"
  by (simp add: filter_empty_conv)

lemma run_idle:
  "\<forall>tc \<in> set (testCases project). status tc \<noteq> PENDING \<Longrightarrow>
   runTests env project =
     \<lparr>final = \<lparr>updatedCases = testCases project, shown = [], activated = [], draws = 0\<rparr>,
      updateArg = None, completeCalled = True\<rparr>"
  by (simp add: runTests_def Let_def filter_empty_conv)

lemma run_busy:
  "\<exists>tc \<in> set (testCases project). status tc = PENDING \<Longrightarrow>
   runTests env project =
     \<lparr>final = runTests_loop env 0
                \<lparr>updatedCases = testCases project, shown = [], activated = [], draws = 0\<rparr>,
      updateArg = Some (project\<lparr>testCases := updatedCases (runTests_loop env 0
                \<lparr>updatedCases = testCases project, shown = [], activated = [], draws = 0\<rparr>),
           p_status := finalStatus (updatedCases (runTests_loop env 0
                \<lparr>updatedCases = testCases project, shown = [], activated = [], draws = 0\<rparr>))\<rparr>),
      completeCalled = True\<rparr>"
  by (simp add: runTests_def Let_def filter_empty_conv)

text \<open>
  C4. In every run, started from the plan or as a retry, a case that is Passed when
  the run starts is the same record afterwards: in the working copy at the end of the
  run, in every list handed to the display during the run, and in the project handed
  to \<^verbatim>\<open>onUpdateProject\<close>. So its status, steps, logs, evidence and failure fields
  are untouched.
\<close>

theorem passed_cases_untouched:
  "\<forall>j < length (testCases project). status (testCases project ! j) = PASSED \<longrightarrow>
     updatedCases (final (runTests env project)) ! j = testCases project ! j \<and>
     (\<forall>snap \<in> set (shown (final (runTests env project))). snap ! j = testCases project ! j) \<and>
     (\<forall>p'. updateArg (runTests env project) = Some p' \<longrightarrow>
           testCases p' ! j = testCases project ! j)"
proof (intro allI impI)
  fix j
  assume j: "j < length (testCases project)" and p: "status (testCases project ! j) = PASSED"
  let ?start = "\<lparr>updatedCases = testCases project, shown = [], activated = [], draws = 0\<rparr>"
  show "updatedCases (final (runTests env project)) ! j = testCases project ! j \<and>
     (\<forall>snap \<in> set (shown (final (runTests env project))). snap ! j = testCases project ! j) \<and>
     (\<forall>p'. updateArg (runTests env project) = Some p' \<longrightarrow>
           testCases p' ! j = testCases project ! j)"
  proof (cases "\<exists>tc \<in> set (testCases project). status tc = PENDING")
    case False
    then show ?thesis by (simp add: run_idle)
  next
    case True
    have a: "updatedCases (runTests_loop env 0 ?start) ! j = testCases project ! j"
      using loop_frame [of j 0 ?start env] p by simp
    have b: "\<forall>snap \<in> set (shown (runTests_loop env 0 ?start)). snap ! j = testCases project ! j"
      using loop_shown_frame [of ?start j env 0] p j by simp
    from a b show ?thesis by (simp add: run_busy [OF True])
  qed
qed

text \<open>
  C5, as amended. In a run that starts with at least one Pending case, the cases
  that are not Passed are activated in list order, each of them is shown as Running
  at some point of the run, and at the end each has the status Passed or Failed, also
  in the project handed to \<^verbatim>\<open>onUpdateProject\<close>.
\<close>

theorem pending_run_processes_all:
  assumes "\<exists>tc \<in> set (testCases project). status tc = PENDING"
  shows "activated (final (runTests env project)) =
           map tc_id (filter (\<lambda>tc. status tc \<noteq> PASSED) (testCases project)) \<and>
         (\<forall>j < length (testCases project). status (testCases project ! j) \<noteq> PASSED \<longrightarrow>
            (\<exists>snap \<in> set (shown (final (runTests env project))). status (snap ! j) = RUNNING) \<and>
            status (updatedCases (final (runTests env project)) ! j) \<in> {PASSED, FAILED} \<and>
            (\<exists>p'. updateArg (runTests env project) = Some p' \<and>
                  status (testCases p' ! j) \<in> {PASSED, FAILED}))"
proof -
  let ?start = "\<lparr>updatedCases = testCases project, shown = [], activated = [], draws = 0\<rparr>"
  have order: "activated (runTests_loop env 0 ?start) =
           map tc_id (filter (\<lambda>tc. status tc \<noteq> PASSED) (testCases project))"
    by (simp add: loop_activated)
  have each: "status (updatedCases (runTests_loop env 0 ?start) ! j) \<in> {PASSED, FAILED} \<and>
        (\<exists>snap \<in> set (shown (runTests_loop env 0 ?start)). status (snap ! j) = RUNNING)"
    if "j < length (testCases project)" "status (testCases project ! j) \<noteq> PASSED" for j
    using loop_final_status [of 0 j ?start env] that by simp
  from order each show ?thesis by (simp add: run_busy [OF assms])
qed

text \<open>
  C1. Whenever a run reaches the end of its pass and hands a project to
  \<^verbatim>\<open>onUpdateProject\<close>, that project holds the cases as the pass left them and its
  status is Validated when no case is Failed, Partly Validated when at least one case
  and at most half of the cases are Failed, and Failed when more than half are. It
  becomes the active and the stored project, and the view becomes Report.
\<close>

theorem aggregate_status_rule:
  assumes "updateArg (runTests env project) = Some p'"
  shows "testCases p' = updatedCases (final (runTests env project)) \<and>
         (length (filter (\<lambda>tc. status tc = FAILED) (testCases p')) = 0 \<longrightarrow>
            p_status p' = Validated) \<and>
         (1 \<le> length (filter (\<lambda>tc. status tc = FAILED) (testCases p')) \<and>
          2 * length (filter (\<lambda>tc. status tc = FAILED) (testCases p')) \<le> length (testCases p') \<longrightarrow>
            p_status p' = PartlyValidated) \<and>
         (length (testCases p') < 2 * length (filter (\<lambda>tc. status tc = FAILED) (testCases p')) \<longrightarrow>
            p_status p' = Failed) \<and>
         activeProject (ExecutionRunner env project app) = Some p' \<and>
         store (ExecutionRunner env project app) (p_id p') = Some p' \<and>
         currentView (ExecutionRunner env project app) = REPORT"
proof -
  have wired: "activeProject (ExecutionRunner env project app) = Some p' \<and>
         store (ExecutionRunner env project app) (p_id p') = Some p' \<and>
         currentView (ExecutionRunner env project app) = REPORT"
  proof -
    have "completeCalled (runTests env project)"
      by (simp add: runTests_def Let_def)
    with assms show ?thesis
      by (simp add: ExecutionRunner_def Let_def handleUpdateProject_def
          handleExecutionComplete_def saveProjectToHistory_def)
  qed
  have rule: "(length (filter (\<lambda>tc. status tc = FAILED) cs) = 0 \<longrightarrow> finalStatus cs = Validated) \<and>
         (1 \<le> length (filter (\<lambda>tc. status tc = FAILED) cs) \<and>
          2 * length (filter (\<lambda>tc. status tc = FAILED) cs) \<le> length cs \<longrightarrow>
            finalStatus cs = PartlyValidated) \<and>
         (length cs < 2 * length (filter (\<lambda>tc. status tc = FAILED) cs) \<longrightarrow>
            finalStatus cs = Failed)" for cs
  proof -
    have half: "((of_nat (length cs) :: rat) / 2 < of_nat (length (filter (\<lambda>tc. status tc = FAILED) cs)))
          = (length cs < 2 * length (filter (\<lambda>tc. status tc = FAILED) cs))"
    proof -
      have "((of_nat (length cs) :: rat) / 2 < of_nat (length (filter (\<lambda>tc. status tc = FAILED) cs)))
          = ((of_nat (length cs) :: rat) < of_nat (2 * length (filter (\<lambda>tc. status tc = FAILED) cs)))"
        by (simp add: field_simps)
      also have "\<dots> = (length cs < 2 * length (filter (\<lambda>tc. status tc = FAILED) cs))"
        by (rule of_nat_less_iff)
      finally show ?thesis .
    qed
    show ?thesis unfolding finalStatus_def Let_def half by auto
  qed
  show ?thesis
  proof (cases "\<exists>tc \<in> set (testCases project). status tc = PENDING")
    case False
    with assms show ?thesis by (simp add: run_idle)
  next
    case True
    from assms have "p' = project\<lparr>testCases := updatedCases (final (runTests env project)),
           p_status := finalStatus (updatedCases (final (runTests env project)))\<rparr>"
      by (simp add: run_busy [OF True])
    then have "testCases p' = updatedCases (final (runTests env project))"
      and "p_status p' = finalStatus (testCases p')" by simp_all
    with rule [of "testCases p'"] wired show ?thesis by simp
  qed
qed

lemma double_values:
  "toDouble 0 = 0"
  "toDouble 1 = 1"
  "toDouble (3 / 10) = 5404319552844595 / 18014398509481984"
  "toDouble (4 / 5) = 3602879701896397 / 4503599627370496"
  "toDouble (15 / 4) = 15 / 4"
  "toDouble (18014398509481983 / 4503599627370496) = 4"
  "toDouble (27021597764222975 / 9007199254740992) = 3"
  by code_simp+

lemma double_draws:
  "isDouble (1 / 2)" "isDouble (3 / 4)"
  "isDouble (2573485501354569 / 4503599627370496)"
  "isDouble (5404319552844595 / 9007199254740992)"
  by code_simp+

lemma floor_numeral_div: "\<lfloor>(numeral a :: rat) / numeral b\<rfloor> = numeral a div numeral b"
  using floor_divide_of_int_eq [of "numeral a" "numeral b", where ?'a = rat] by simp

lemmas eval_defs = floor_numeral_div double_values runTests_def runTests_loop.simps
  runTests_body_def runTests_case_def mkEnv_def mkProject_def mkCase_def mkStep_def failedCase_def
  reasons_def js_index_def slice_last_def showInt_def decimal.simps digit_def finalStatus_def
  Let_def

lemma run_example:
  "runTests (mkEnv [1 / 8, 1 / 2, 3 / 4])
     (mkProject [mkCase ''TC-1-0'' [1] PASSED, mkCase ''TC-1-1'' [1, 2] PENDING] InProgress) =
   \<lparr>final = \<lparr>updatedCases = [mkCase ''TC-1-0'' [1] PASSED, failedCase],
              shown = [[mkCase ''TC-1-0'' [1] PASSED, mkCase ''TC-1-1'' [1, 2] RUNNING],
                       [mkCase ''TC-1-0'' [1] PASSED, failedCase]],
              activated = [''TC-1-1''],
              draws = 3\<rparr>,
    updateArg = Some (mkProject [mkCase ''TC-1-0'' [1] PASSED, failedCase] PartlyValidated),
    completeCalled = True\<rparr>"
  by (simp add: eval_defs)

lemma run_failed_only:
  "runTests (mkEnv [1 / 8, 1 / 2, 3 / 4]) (mkProject [failedCase] Failed) =
   \<lparr>final = \<lparr>updatedCases = [failedCase], shown = [], activated = [], draws = 0\<rparr>,
    updateArg = None, completeCalled = True\<rparr>"
  by (simp add: eval_defs)

theorem passed_cases_untouched_witness:
  "status (testCases (mkProject [mkCase ''TC-1-0'' [1] PASSED, mkCase ''TC-1-1'' [1, 2] PENDING]
             InProgress) ! 0) = PASSED \<and>
   updatedCases (final (runTests (mkEnv [1 / 8, 1 / 2, 3 / 4])
     (mkProject [mkCase ''TC-1-0'' [1] PASSED, mkCase ''TC-1-1'' [1, 2] PENDING] InProgress))) ! 0
   = mkCase ''TC-1-0'' [1] PASSED"
  using passed_cases_untouched [rule_format, of 0
     "mkProject [mkCase ''TC-1-0'' [1] PASSED, mkCase ''TC-1-1'' [1, 2] PENDING] InProgress"
     "mkEnv [1 / 8, 1 / 2, 3 / 4]"]
  by (simp add: mkProject_def mkCase_def)

theorem pending_run_processes_all_witness:
  "(\<exists>tc \<in> set (testCases (mkProject [mkCase ''TC-1-0'' [1] PASSED, mkCase ''TC-1-1'' [1, 2] PENDING]
             InProgress)). status tc = PENDING) \<and>
   activated (final (runTests (mkEnv [1 / 8, 1 / 2, 3 / 4])
     (mkProject [mkCase ''TC-1-0'' [1] PASSED, mkCase ''TC-1-1'' [1, 2] PENDING] InProgress)))
     = [''TC-1-1''] \<and>
   status (updatedCases (final (runTests (mkEnv [1 / 8, 1 / 2, 3 / 4])
     (mkProject [mkCase ''TC-1-0'' [1] PASSED, mkCase ''TC-1-1'' [1, 2] PENDING] InProgress))) ! 1)
     \<in> {PASSED, FAILED}"
proof -
  have pend: "\<exists>tc \<in> set (testCases (mkProject [mkCase ''TC-1-0'' [1] PASSED,
                 mkCase ''TC-1-1'' [1, 2] PENDING] InProgress)). status tc = PENDING"
    by (simp add: mkProject_def mkCase_def)
  from pending_run_processes_all [OF pend, of "mkEnv [1 / 8, 1 / 2, 3 / 4]"] pend
  show ?thesis by (simp add: mkProject_def mkCase_def)
qed

text \<open>
  C5 as stated fails: the run of a project whose only case is Failed finds no
  Pending case and returns at once. The case is never activated nor shown as Running,
  and no project update is made.
\<close>

theorem failed_only_run_counterexample:
  "status failedCase = FAILED \<and>
   shown (final (runTests (mkEnv [1 / 8, 1 / 2, 3 / 4]) (mkProject [failedCase] Failed))) = [] \<and>
   activated (final (runTests (mkEnv [1 / 8, 1 / 2, 3 / 4]) (mkProject [failedCase] Failed))) = [] \<and>
   updateArg (runTests (mkEnv [1 / 8, 1 / 2, 3 / 4]) (mkProject [failedCase] Failed)) = None"
  by (simp add: run_failed_only) (simp add: failedCase_def mkCase_def)

theorem aggregate_status_rule_witness:
  "updateArg (runTests (mkEnv [1 / 8, 1 / 2, 3 / 4])
     (mkProject [mkCase ''TC-1-0'' [1] PASSED, mkCase ''TC-1-1'' [1, 2] PENDING] InProgress))
     = Some (mkProject [mkCase ''TC-1-0'' [1] PASSED, failedCase] PartlyValidated) \<and>
   length (filter (\<lambda>tc. status tc = FAILED)
     (testCases (mkProject [mkCase ''TC-1-0'' [1] PASSED, failedCase] PartlyValidated))) = 1 \<and>
   p_status (mkProject [mkCase ''TC-1-0'' [1] PASSED, failedCase] PartlyValidated) = PartlyValidated"
proof -
  have upd: "updateArg (runTests (mkEnv [1 / 8, 1 / 2, 3 / 4])
     (mkProject [mkCase ''TC-1-0'' [1] PASSED, mkCase ''TC-1-1'' [1, 2] PENDING] InProgress))
     = Some (mkProject [mkCase ''TC-1-0'' [1] PASSED, failedCase] PartlyValidated)"
    by (simp add: run_example)
  have one: "length (filter (\<lambda>tc. status tc = FAILED)
     (testCases (mkProject [mkCase ''TC-1-0'' [1] PASSED, failedCase] PartlyValidated))) = 1"
    by (simp add: mkProject_def mkCase_def failedCase_def)
  have two: "length (testCases (mkProject [mkCase ''TC-1-0'' [1] PASSED, failedCase] PartlyValidated)) = 2"
    by (simp add: mkProject_def)
  from aggregate_status_rule [OF upd] one two upd show ?thesis by simp
qed

section \<open>The synthetic failure point\<close>

lemma steps_hit:
  "\<exists>s \<in> set ss. stepNumber s = f \<Longrightarrow>
   runTests_steps env False f k ss =
     (Some f, js_index reasons \<lfloor>toDouble (random env k * of_nat (length reasons))\<rfloor>, Suc k)"
  by (induction ss) auto

lemma reason_drawn:
  assumes "isDouble r" "0 \<le> r" "r < 1"
  shows "\<exists>x. js_index reasons \<lfloor>toDouble (r * of_nat (length reasons))\<rfloor> = Some x \<and>
             x \<in> set reasons"
proof -
  have "0 < length reasons" and "length reasons < 2 ^ 53" by (simp_all add: reasons_def)
  from floor_product [OF assms this]
  have lo: "0 \<le> \<lfloor>toDouble (r * of_nat (length reasons))\<rfloor>"
    and hi: "\<lfloor>toDouble (r * of_nat (length reasons))\<rfloor> < int (length reasons)" by simp_all
  then have "nat \<lfloor>toDouble (r * of_nat (length reasons))\<rfloor> < length reasons" by linarith
  then have "reasons ! nat \<lfloor>toDouble (r * of_nat (length reasons))\<rfloor> \<in> set reasons"
    by (rule nth_mem)
  with lo hi show ?thesis by (simp add: js_index_def)
qed

text \<open>
  C7, as amended. Take a simulated case whose outcome draw decides failure, whose
  list of steps is not empty and in which every number from 1 to the number of steps
  is the number of some step (as it is when the steps are numbered \<open>1, 2, ..., n\<close>).
  The draws for the failure point and for the reason are doubles in \<open>[0, 1)\<close>, as
  \<^verbatim>\<open>Math.random()\<close> returns them, and the case has fewer than \<open>2\<^sup>5\<^sup>3\<close> steps, as every
  array has. Then the record stored for the case has status Failed, a failed step
  number that is the number of one of its steps and lies between 1 and the number of
  steps, and a failure reason taken from the fixed list of reasons.
\<close>

theorem failure_records_step:
  assumes fail: "\<not> random env k > toDouble (3 / 10)"
    and at: "isDouble (random env (Suc k))" "0 \<le> random env (Suc k)" "random env (Suc k) < 1"
    and why: "isDouble (random env (Suc (Suc k)))" "0 \<le> random env (Suc (Suc k))"
      "random env (Suc (Suc k)) < 1"
    and some: "steps tc \<noteq> []"
    and size: "length (steps tc) < 2 ^ 53"
    and numbered: "\<forall>n \<in> {1..int (length (steps tc))}. \<exists>s \<in> set (steps tc). stepNumber s = n"
  shows "status (fst (runTests_case env tc k)) = FAILED \<and>
         (\<exists>n. failedStepNumber (fst (runTests_case env tc k)) = Some n \<and>
              n \<in> stepNumber ` set (steps tc) \<and> 1 \<le> n \<and> n \<le> int (length (steps tc))) \<and>
         (\<exists>x. failureReason (fst (runTests_case env tc k)) = Some x \<and> x \<in> set reasons)"
proof -
  let ?f = "\<lfloor>toDouble (random env (Suc k) * of_nat (length (steps tc)))\<rfloor> + 1"
  from some have "0 < length (steps tc)" by simp
  from floor_product [OF at this size]
  have range: "1 \<le> ?f" "?f \<le> int (length (steps tc))" by simp_all
  with numbered have hit: "\<exists>s \<in> set (steps tc). stepNumber s = ?f" by simp
  then have mem: "?f \<in> stepNumber ` set (steps tc)" by force
  from reason_drawn [OF why] obtain x where
    x: "js_index reasons \<lfloor>toDouble (random env (Suc (Suc k)) * of_nat (length reasons))\<rfloor> = Some x"
      "x \<in> set reasons"
    by blast
  have "runTests_steps env False ?f (Suc (Suc k)) (steps tc) = (Some ?f, Some x, Suc (Suc (Suc k)))"
    using steps_hit [OF hit] x(1) by simp
  with fail have "status (fst (runTests_case env tc k)) = FAILED"
    and "failedStepNumber (fst (runTests_case env tc k)) = Some ?f"
    and "failureReason (fst (runTests_case env tc k)) = Some x"
    by (simp_all add: runTests_case_def Let_def)
  with range mem x(2) show ?thesis by blast
qed

lemma case_example:
  "fst (runTests_case roundingEnv sevenSteps 0) =
     sevenSteps\<lparr>status := FAILED, logs := [''Result: Failed at Step 5''],
                screenshotUrl := Some ''data:image/png'', failedStepNumber := Some 5,
                failureReason := Some ''Button is not clickable''\<rparr>"
  by (simp add: eval_defs roundingEnv_def sevenSteps_def)

theorem failure_records_step_witness:
  "\<not> random roundingEnv 0 > toDouble (3 / 10) \<and>
   isDouble (random roundingEnv (Suc 0)) \<and> isDouble (random roundingEnv (Suc (Suc 0))) \<and>
   map stepNumber (steps sevenSteps) = [1, 2, 3, 4, 5, 6, 7] \<and>
   status (fst (runTests_case roundingEnv sevenSteps 0)) = FAILED \<and>
   failedStepNumber (fst (runTests_case roundingEnv sevenSteps 0)) = Some 5 \<and>
   failureReason (fst (runTests_case roundingEnv sevenSteps 0)) = Some ''Button is not clickable''"
proof -
  have fail: "\<not> random roundingEnv 0 > toDouble (3 / 10)"
    by (simp add: roundingEnv_def mkEnv_def double_values)
  have at: "isDouble (random roundingEnv (Suc 0))" "0 \<le> random roundingEnv (Suc 0)"
    "random roundingEnv (Suc 0) < 1"
    by (simp_all add: roundingEnv_def mkEnv_def double_draws)
  have why: "isDouble (random roundingEnv (Suc (Suc 0)))" "0 \<le> random roundingEnv (Suc (Suc 0))"
    "random roundingEnv (Suc (Suc 0)) < 1"
    by (simp_all add: roundingEnv_def mkEnv_def double_draws)
  have some: "steps sevenSteps \<noteq> []"
    by (simp add: sevenSteps_def mkCase_def)
  have size: "length (steps sevenSteps) < 2 ^ 53"
    by (simp add: sevenSteps_def mkCase_def)
  have nums: "map stepNumber (steps sevenSteps) = [1, 2, 3, 4, 5, 6, 7]"
    by (simp add: sevenSteps_def mkCase_def mkStep_def)
  have numbered: "\<forall>n \<in> {1..int (length (steps sevenSteps))}.
      \<exists>s \<in> set (steps sevenSteps). stepNumber s = n"
  proof
    fix n :: int
    assume "n \<in> {1..int (length (steps sevenSteps))}"
    then have "1 \<le> n" "n \<le> 7" by (simp_all add: sevenSteps_def mkCase_def)
    then have "n \<in> set [1, 2, 3, 4, 5, 6, 7]" by (simp add: ) arith
    then have "n \<in> set (map stepNumber (steps sevenSteps))" by (simp only: nums)
    then show "\<exists>s \<in> set (steps sevenSteps). stepNumber s = n" by auto
  qed
  have res: "status (fst (runTests_case roundingEnv sevenSteps 0)) = FAILED"
    "failedStepNumber (fst (runTests_case roundingEnv sevenSteps 0)) = Some 5"
    "failureReason (fst (runTests_case roundingEnv sevenSteps 0)) = Some ''Button is not clickable''"
    unfolding case_example by simp_all
  from failure_records_step [OF fail at why some size numbered] fail at(1) why(1) nums res
  show ?thesis by blast
qed

text \<open>
  C7 as stated fails: a case without steps, and a case whose two steps carry the
  numbers 0 and 1, are both stored as Failed with neither a failed step number nor a
  failure reason, since no step carries the number that was drawn.
\<close>

theorem failure_without_step_counterexample:
  "status (fst (runTests_case (mkEnv [1 / 8, 1 / 2, 3 / 4]) (mkCase ''TC-1-1'' [] PENDING) 0))
     = FAILED \<and>
   failedStepNumber (fst (runTests_case (mkEnv [1 / 8, 1 / 2, 3 / 4])
     (mkCase ''TC-1-1'' [] PENDING) 0)) = None \<and>
   failureReason (fst (runTests_case (mkEnv [1 / 8, 1 / 2, 3 / 4])
     (mkCase ''TC-1-1'' [] PENDING) 0)) = None \<and>
   map stepNumber (steps (mkCase ''TC-1-2'' [0, 1] PENDING)) = [0, 1] \<and>
   status (fst (runTests_case (mkEnv [1 / 8, 1 / 2, 3 / 4]) (mkCase ''TC-1-2'' [0, 1] PENDING) 0))
     = FAILED \<and>
   failedStepNumber (fst (runTests_case (mkEnv [1 / 8, 1 / 2, 3 / 4])
     (mkCase ''TC-1-2'' [0, 1] PENDING) 0)) = None \<and>
   failureReason (fst (runTests_case (mkEnv [1 / 8, 1 / 2, 3 / 4])
     (mkCase ''TC-1-2'' [0, 1] PENDING) 0)) = None"
  by (simp add: eval_defs)

section \<open>Retrying the model call\<close>

lemma retry_last: "retry fn k 0 d = (fn k, [Call])"
  by (subst retry.simps) (simp split: sum.splits)

lemma retry_more:
  "0 < n \<Longrightarrow> retry fn k n d =
     (case fn k of
        Inr v \<Rightarrow> (Inr v, [Call])
      | Inl e \<Rightarrow> (fst (retry fn (Suc k) (n - 1) (d * (3 / 2))),
                  Call # Sleep d # snd (retry fn (Suc k) (n - 1) (d * (3 / 2)))))"
  by (subst retry.simps) (simp add: Let_def split: sum.splits)

lemma retry_default:
  "retry fn 0 2 1000 =
     (case fn 0 of
        Inr v \<Rightarrow> (Inr v, [Call])
      | Inl e0 \<Rightarrow>
          (case fn 1 of
             Inr v \<Rightarrow> (Inr v, [Call, Sleep 1000, Call])
           | Inl e1 \<Rightarrow> (fn 2, [Call, Sleep 1000, Call, Sleep 1500, Call])))"
proof -
  have two: "Suc (Suc 0) = 2" by simp
  show ?thesis
    by (simp add: retry_more [of 2] retry_more [of 1] retry_last two split: sum.splits)
qed

lemma policy_post:
  "retry_policy fn (case fst (retry fn 0 2 1000) of Inl e \<Rightarrow> Inl e | Inr v \<Rightarrow> post v,
                    snd (retry fn 0 2 1000))"
  by (auto simp: retry_policy_def retry_default split: sum.splits)

text \<open>
  C6. Each of the five gateway operations follows the retry policy on its
  underlying model call: the call is attempted again only after a failure and at most
  twice more, after waits of 1000 and then 1000 \<times> 1.5 = 1500; when the third attempt
  fails as well, the operation returns that attempt's error and nothing else.
\<close>

theorem gateway_retry_policy:
  "retry_policy (\<lambda>k. generateContent gw k
       \<lparr>contents = prompt_extract gw chatHistoryText, responseSchema = Some requirementsSchema\<rparr>)
     (extractRequirements gw chatHistoryText) \<and>
   retry_policy (\<lambda>k. generateContent gw k
       \<lparr>contents = prompt_generate gw reqs, responseSchema = Some testCaseSchema\<rparr>)
     (generateTestCases gw reqs) \<and>
   retry_policy (\<lambda>k. generateContent gw k
       \<lparr>contents = prompt_fix gw testCase, responseSchema = Some fixTestSchema\<rparr>)
     (analyzeAndFixTestCase gw testCase) \<and>
   retry_policy (\<lambda>k. generateContent gw k
       \<lparr>contents = prompt_refine gw testCase instruction,
        responseSchema = Some singleTestCaseSchema\<rparr>)
     (refineTestCase gw testCase instruction) \<and>
   retry_policy (\<lambda>k. generateContent gw k
       \<lparr>contents = prompt_code gw cases framework envConfig, responseSchema = None\<rparr>)
     (generateTestSuiteCode gw cases framework envConfig)"
  by (simp add: extractRequirements_def generateTestCases_def
      analyzeAndFixTestCase_def refineTestCase_def generateTestSuiteCode_def Let_def
      policy_post)

lemma failing_isl: "isl (failing k)" "projl (failing 2) = Error ''HTTP 503 at attempt 2''"
  by (simp_all add: failing_def decimal.simps digit_def)

theorem gateway_retry_policy_witness:
  "isl (failing 0) \<and> isl (failing 1) \<and> isl (failing 2) \<and>
   extractRequirements (mockGateway failing) ''USER: hello'' =
     (Inl (Error ''HTTP 503 at attempt 2''), [Call, Sleep 1000, Call, Sleep 1500, Call]) \<and>
   generateTestCases (mockGateway failing) [] =
     (Inl (Error ''HTTP 503 at attempt 2''), [Call, Sleep 1000, Call, Sleep 1500, Call]) \<and>
   analyzeAndFixTestCase (mockGateway failing) failedCase =
     (Inl (Error ''HTTP 503 at attempt 2''), [Call, Sleep 1000, Call, Sleep 1500, Call]) \<and>
   refineTestCase (mockGateway failing) failedCase ''add a wait'' =
     (Inl (Error ''HTTP 503 at attempt 2''), [Call, Sleep 1000, Call, Sleep 1500, Call]) \<and>
   generateTestSuiteCode (mockGateway failing) [failedCase] ''Playwright'' None =
     (Inl (Error ''HTTP 503 at attempt 2''), [Call, Sleep 1000, Call, Sleep 1500, Call])"
  using gateway_retry_policy [of "mockGateway failing" "''USER: hello''" "[]" failedCase
      "''add a wait''" "[failedCase]" "''Playwright''" None]
  by (simp add: retry_policy_def mockGateway_def failing_isl prod_eq_iff)

section \<open>Rows of an imported sheet\<close>

lemma trim_blank: "(s \<noteq> [] \<and> trim s \<noteq> []) = (\<not> blank s)"
proof -
  have "(trim s = []) = (\<forall>c \<in> set (dropWhile isWhitespace s). isWhitespace c)"
    by (simp add: trim_def dropWhile_eq_Nil_conv)
  also have "\<dots> = (dropWhile isWhitespace s = [])"
  proof
    assume all: "\<forall>c \<in> set (dropWhile isWhitespace s). isWhitespace c"
    show "dropWhile isWhitespace s = []"
    proof (rule ccontr)
      assume ne: "dropWhile isWhitespace s \<noteq> []"
      then have "\<not> isWhitespace (hd (dropWhile isWhitespace s))" by (rule hd_dropWhile)
      moreover from ne have "hd (dropWhile isWhitespace s) \<in> set (dropWhile isWhitespace s)"
        by (rule hd_in_set)
      ultimately show False using all by blast
    qed
  next
    assume "dropWhile isWhitespace s = []"
    then show "\<forall>c \<in> set (dropWhile isWhitespace s). isWhitespace c"
      by (simp del: dropWhile_eq_Nil_conv)
  qed
  also have "\<dots> = blank s"
    by (simp add: dropWhile_eq_Nil_conv blank_def list_all_iff)
  finally have "(trim s = []) = blank s" .
  moreover have "s = [] \<Longrightarrow> blank s" by (simp add: blank_def)
  ultimately show ?thesis by auto
qed

lemma mapi_nth: "i < length xs \<Longrightarrow> js_mapi f xs ! i = f (xs ! i) i"
  by (simp add: js_mapi_def nth_enumerate_eq)

lemma mapi_length: "length (js_mapi f xs) = length xs"
  by (simp add: js_mapi_def)

lemma row_description: "description (rowToRequirement now r i) = rowDescription r"
  by (simp add: rowToRequirement_def Let_def)

lemma high_is_truthy:
  assumes h: "js_includes (toLowerCase (toString c)) ''high''"
  shows "truthy c"
proof (cases c)
  case None
  with h show ?thesis by (simp add: toString_def toLowerCase_def)
next
  case (Some v)
  show ?thesis
  proof (cases v)
    case (Str s)
    with Some h show ?thesis by (cases s) (auto simp: toString_def toLowerCase_def truthy_def)
  next
    case (Num n)
    with Some h show ?thesis
      by (cases "n = 0") (auto simp: toString_def toLowerCase_def truthy_def showInt_def decimal.simps digit_def)
  next
    case (Bool b)
    with Some h show ?thesis by (cases b) (auto simp: toString_def toLowerCase_def truthy_def)
  qed
qed

lemma high_priority:
  assumes "js_includes (toLowerCase (toString (map_of r ''Priority''))) ''high''"
    and "\<not> js_includes (toLowerCase (toString (map_of r ''Priority''))) ''low''"
  shows "priority (rowToRequirement now r i) = High"
  using assms high_is_truthy [OF assms(1)]
  by (simp add: rowToRequirement_def Let_def js_or_def)

text \<open>
  C8, as amended. The requirements of an imported sheet are those built from its
  rows, in order, whose resolved description is neither empty nor white space only: a
  row with such a description is left out, every other row is kept. A row whose
  Priority value contains \<open>high\<close> in any letter case, and does not contain \<open>low\<close> in
  any letter case, yields priority High.
\<close>

theorem import_rows:
  assumes "parseExcelRequirements now fileName (Inr jsonData) = Inr (reqs, nm)"
  shows "reqs = filter (\<lambda>req. \<not> blank (description req)) (js_mapi (rowToRequirement now) jsonData) \<and>
         (\<forall>i < length jsonData.
            (blank (rowDescription (jsonData ! i)) \<longrightarrow>
               rowToRequirement now (jsonData ! i) i \<notin> set reqs) \<and>
            (\<not> blank (rowDescription (jsonData ! i)) \<longrightarrow>
               rowToRequirement now (jsonData ! i) i \<in> set reqs) \<and>
            (js_includes (toLowerCase (toString (map_of (jsonData ! i) ''Priority''))) ''high'' \<and>
             \<not> js_includes (toLowerCase (toString (map_of (jsonData ! i) ''Priority''))) ''low'' \<longrightarrow>
               priority (rowToRequirement now (jsonData ! i) i) = High))"
proof -
  from assms have reqs:
    "reqs = filter (\<lambda>req. \<not> blank (description req)) (js_mapi (rowToRequirement now) jsonData)"
    by (simp add: parseExcelRequirements_def trim_blank)
  have "rowToRequirement now (jsonData ! i) i \<notin> set reqs"
    if "i < length jsonData" "blank (rowDescription (jsonData ! i))" for i
    using that by (simp add: reqs row_description)
  moreover have "rowToRequirement now (jsonData ! i) i \<in> set reqs"
    if "i < length jsonData" "\<not> blank (rowDescription (jsonData ! i))" for i
  proof -
    from that(1) have "js_mapi (rowToRequirement now) jsonData ! i \<in> set (js_mapi (rowToRequirement now) jsonData)"
      by (intro nth_mem) (simp add: mapi_length)
    with that show ?thesis by (simp add: reqs row_description mapi_nth)
  qed
  ultimately show ?thesis using reqs high_priority by blast
qed

lemmas row_defs = rowToRequirement_def rowDescription_def js_or_def truthy_def toString_def
  toLowerCase_def firstValue_def decimal.simps digit_def Let_def sampleRow_def urgentRow_def
  blankRow_def

lemma import_example:
  "parseExcelRequirements (\<lambda>i. 1700000000000) ''login-requirements.xlsx''
     (Inr [urgentRow, blankRow]) =
   Inr ([\<lparr>r_id = ''REQ-IMPORT-1700000000000-0'', r_type = FUNCTIONAL,
          description = ''Password reset'', priority = High\<rparr>], ''Login requirements'')"
  by (simp add: parseExcelRequirements_def js_mapi_def projectNameOf_def toUpperCase_char_def
      trim_def isWhitespace_def row_defs)

theorem import_rows_witness:
  "blank (rowDescription ([urgentRow, blankRow] ! 1)) \<and>
   js_includes (toLowerCase (toString (map_of ([urgentRow, blankRow] ! 0) ''Priority''))) ''high'' \<and>
   \<not> js_includes (toLowerCase (toString (map_of ([urgentRow, blankRow] ! 0) ''Priority''))) ''low'' \<and>
   parseExcelRequirements (\<lambda>i. 1700000000000) ''login-requirements.xlsx''
     (Inr [urgentRow, blankRow]) =
   Inr ([\<lparr>r_id = ''REQ-IMPORT-1700000000000-0'', r_type = FUNCTIONAL,
          description = ''Password reset'', priority = High\<rparr>], ''Login requirements'') \<and>
   priority (rowToRequirement (\<lambda>i. 1700000000000) urgentRow 0) = High \<and>
   rowToRequirement (\<lambda>i. 1700000000000) blankRow 1 \<notin>
     set [\<lparr>r_id = ''REQ-IMPORT-1700000000000-0'', r_type = FUNCTIONAL,
           description = ''Password reset'', priority = High\<rparr>]"
proof -
  have b: "blank (rowDescription ([urgentRow, blankRow] ! 1))"
    by (simp add: blank_def isWhitespace_def row_defs)
  have h: "js_includes (toLowerCase (toString (map_of ([urgentRow, blankRow] ! 0) ''Priority''))) ''high''"
    by (simp add: row_defs)
  have l: "\<not> js_includes (toLowerCase (toString (map_of ([urgentRow, blankRow] ! 0) ''Priority''))) ''low''"
    by (simp add: row_defs)
  have rows: "\<forall>i < length [urgentRow, blankRow].
      (blank (rowDescription ([urgentRow, blankRow] ! i)) \<longrightarrow>
         rowToRequirement (\<lambda>i. 1700000000000) ([urgentRow, blankRow] ! i) i \<notin>
           set [\<lparr>r_id = ''REQ-IMPORT-1700000000000-0'', r_type = FUNCTIONAL,
                 description = ''Password reset'', priority = High\<rparr>]) \<and>
      (\<not> blank (rowDescription ([urgentRow, blankRow] ! i)) \<longrightarrow>
         rowToRequirement (\<lambda>i. 1700000000000) ([urgentRow, blankRow] ! i) i \<in>
           set [\<lparr>r_id = ''REQ-IMPORT-1700000000000-0'', r_type = FUNCTIONAL,
                 description = ''Password reset'', priority = High\<rparr>]) \<and>
      (js_includes (toLowerCase (toString (map_of ([urgentRow, blankRow] ! i) ''Priority''))) ''high'' \<and>
       \<not> js_includes (toLowerCase (toString (map_of ([urgentRow, blankRow] ! i) ''Priority''))) ''low'' \<longrightarrow>
         priority (rowToRequirement (\<lambda>i. 1700000000000) ([urgentRow, blankRow] ! i) i) = High)"
    using import_rows [OF import_example] by (rule conjunct2)
  have one: "1 < length [urgentRow, blankRow]" and zero: "0 < length [urgentRow, blankRow]"
    by simp_all
  from rows [rule_format, OF one] b
  have out: "rowToRequirement (\<lambda>i. 1700000000000) ([urgentRow, blankRow] ! 1) 1 \<notin>
           set [\<lparr>r_id = ''REQ-IMPORT-1700000000000-0'', r_type = FUNCTIONAL,
                 description = ''Password reset'', priority = High\<rparr>]"
    by blast
  from rows [rule_format, OF zero] h l
  have hi: "priority (rowToRequirement (\<lambda>i. 1700000000000) ([urgentRow, blankRow] ! 0) 0) = High"
    by blast
  from out have out': "rowToRequirement (\<lambda>i. 1700000000000) blankRow 1 \<notin>
           set [\<lparr>r_id = ''REQ-IMPORT-1700000000000-0'', r_type = FUNCTIONAL,
                 description = ''Password reset'', priority = High\<rparr>]"
    by simp
  from hi have hi': "priority (rowToRequirement (\<lambda>i. 1700000000000) urgentRow 0) = High"
    by simp
  from b h l import_example out' hi' show ?thesis by blast
qed

text \<open>
  C8 as stated fails: the Priority value \<open>High, not low\<close> contains \<open>high\<close>, and the
  row yields priority Low, since the test for \<open>low\<close> comes second and overrides.
\<close>

theorem high_and_low_counterexample:
  "js_includes (toLowerCase (toString (map_of sampleRow ''Priority''))) ''high'' \<and>
   parseExcelRequirements (\<lambda>i. 1700000000000) ''login-requirements.xlsx'' (Inr [sampleRow]) =
   Inr ([\<lparr>r_id = ''REQ-IMPORT-1700000000000-0'', r_type = FUNCTIONAL,
          description = ''Login works'', priority = Low\<rparr>], ''Login requirements'')"
  by (simp add: parseExcelRequirements_def js_mapi_def projectNameOf_def toUpperCase_char_def
      trim_def isWhitespace_def row_defs)

end
